theory Spec2Isabelle
  imports Complex_Main "HOL-Library.Multiset"
begin

section \<open>Data model\<close>

text \<open>
  The program is a single Python module (\<^verbatim>\<open>src/app.py\<close>). Texts are Python strings,
  modelled as \<^typ>\<open>string\<close>; embedding vectors are rows of a numpy array, modelled as
  lists of reals (floating-point rounding is not modelled: every property below is about
  counts, order and selection, not about rounding).
\<close>

type_synonym vec = "real list"

text \<open>Every exception the modelled code can meet is a value of this type.\<close>

datatype error =
    ProviderError          \<comment> \<open>\<^verbatim>\<open>sentence_model.encode\<close> raised\<close>
  | ValueError             \<comment> \<open>numpy / scikit-learn shape and empty-sequence errors\<close>
  | IndexError             \<comment> \<open>Python list index out of range\<close>
  | InvalidParameterError  \<comment> \<open>scikit-learn parameter validation\<close>
  | ClientError            \<comment> \<open>the chat completion call raised\<close>
  | SentimentError         \<comment> \<open>the sentiment pipeline raised\<close>

subsection \<open>The embedding provider\<close>

text \<open>
  \<^verbatim>\<open>SentenceTransformer.encode\<close> is an external collaborator. One call either raises or
  returns one row per input text. A value of \<open>provider\<close> fixes the behaviour of the
  provider during one call: which vector each text gets, and on which batches it raises.
\<close>

record provider =
  embed :: "string \<Rightarrow> vec"
  unavailable :: "string list \<Rightarrow> bool"

definition encode :: "provider \<Rightarrow> string list \<Rightarrow> error + vec list" where
  "encode p texts = (if unavailable p texts then Inl ProviderError else Inr (map (embed p) texts))"

subsection \<open>Program state\<close>

text \<open>
  The module-level list \<^verbatim>\<open>knowledge_base\<close> and the attribute
  \<^verbatim>\<open>active_learning_system.knowledge_base\<close> are the same list object (line 136 passes
  the global list to the constructor, line 97 stores the reference), so one field stands
  for both. \<^verbatim>\<open>knowledge_embeddings\<close> is the module-level array; \<^verbatim>\<open>uncertain_queries\<close>
  is the list of \<^verbatim>\<open>(query, response)\<close> tuples of the active-learning system.
\<close>

record state =
  knowledge_base :: "string list"
  knowledge_embeddings :: "vec list"
  uncertain_queries :: "(string \<times> string) list"

definition initial_knowledge_base :: "string list" where
  "initial_knowledge_base =
    [''Our store hours are 9 AM to 5 PM, Monday to Friday.'',
     ''To reset your password, click on the 'Forgot Password' link on the login page.'',
     ''We offer refunds within 30 days of purchase with a valid receipt.'',
     ''Our product warranty covers manufacturing defects for one year from the date of purchase.'',
     ''For technical support, please email support@example.com or call 0800-123-4567.'']"

text \<open>
  Lines 38-53 and 100: the knowledge base is encoded once at start-up; when that call
  raises the application stops (\<^verbatim>\<open>st.stop()\<close>), so no state exists.
\<close>

definition init_state :: "provider \<Rightarrow> error + state" where
  "init_state p =
    (case encode p initial_knowledge_base of
       Inl e \<Rightarrow> Inl e
     | Inr E \<Rightarrow> Inr \<lparr>knowledge_base = initial_knowledge_base,
                    knowledge_embeddings = E,
                    uncertain_queries = []\<rparr>)"

section \<open>Updating the knowledge base\<close>

text \<open>
  Lines 130-133. \<^verbatim>\<open>self.knowledge_base.extend(new_entries)\<close> mutates the shared list
  first; then the whole knowledge base is encoded again and the global
  \<^verbatim>\<open>knowledge_embeddings\<close> is rebound. When \<^verbatim>\<open>encode\<close> raises, the exception leaves
  the method after the \<^verbatim>\<open>extend\<close> and before the assignment. The result is the state
  after the call together with the outcome (\<open>Inl\<close> the exception, \<open>Inr ()\<close> a normal
  return).
\<close>

definition update_knowledge_base :: "provider \<Rightarrow> state \<Rightarrow> string list \<Rightarrow> state \<times> (error + unit)" where
  "update_knowledge_base p st new_entries =
    (let st1 = st\<lparr>knowledge_base := knowledge_base st @ new_entries\<rparr> in
     case encode p (knowledge_base st1) of
       Inl e \<Rightarrow> (st1, Inl e)
     | Inr E \<Rightarrow> (st1\<lparr>knowledge_embeddings := E\<rparr>, Inr ()))"

text \<open>
  A sequence of calls; each call comes with the behaviour of the provider during that
  call. A caller that survives the exception of one call goes on with the next.
\<close>

fun run_updates :: "state \<Rightarrow> (provider \<times> string list) list \<Rightarrow> state" where
  "run_updates st [] = st"
| "run_updates st ((p, new_entries) # calls) =
     run_updates (fst (update_knowledge_base p st new_entries)) calls"

section \<open>Numeric library functions used by the program\<close>

text \<open>
  The program calls numpy and scikit-learn. What it uses of them is written out here:
  shape checks raise \<open>ValueError\<close>, list indexing out of range raises \<open>IndexError\<close>.
\<close>

fun collect :: "('a \<Rightarrow> error + 'b) \<Rightarrow> 'a list \<Rightarrow> error + 'b list" where
  "collect f [] = Inr []"
| "collect f (x # xs) =
     (case f x of
        Inl e \<Rightarrow> Inl e
      | Inr y \<Rightarrow> (case collect f xs of Inl e \<Rightarrow> Inl e | Inr ys \<Rightarrow> Inr (y # ys)))"

definition getitem :: "'a list \<Rightarrow> nat \<Rightarrow> error + 'a" where
  "getitem xs i = (if i < length xs then Inr (xs ! i) else Inl IndexError)"

definition dot :: "vec \<Rightarrow> vec \<Rightarrow> real" where
  "dot a b = sum_list (map2 (\<lambda>x y. x * y) a b)"

definition l2norm :: "vec \<Rightarrow> real" where
  "l2norm a = sqrt (sum_list (map (\<lambda>x. x * x) a))"

text \<open>\<^verbatim>\<open>sklearn.preprocessing.normalize\<close>: a row of norm zero is left as it is.\<close>

definition normalize :: "vec \<Rightarrow> vec" where
  "normalize a = (let n = l2norm a in map (\<lambda>x. x / (if n = 0 then 1 else n)) a)"

text \<open>
  \<^verbatim>\<open>check_array\<close>: a matrix has at least one row and one column (and, being a numpy
  array, rows of one length).
\<close>

definition check_array :: "vec list \<Rightarrow> bool" where
  "check_array X = (case X of [] \<Rightarrow> False
                    | x # _ \<Rightarrow> 0 < length x \<and> list_all (\<lambda>y. length y = length x) X)"

definition n_features :: "vec list \<Rightarrow> nat" where
  "n_features X = (case X of [] \<Rightarrow> 0 | x # _ \<Rightarrow> length x)"

text \<open>
  \<^verbatim>\<open>sklearn.metrics.pairwise.cosine_similarity(X, Y)\<close>: both arguments are checked, the
  feature counts must agree, the rows are normalised and the result is the matrix of dot
  products, one row per row of \<open>X\<close>.
\<close>

definition cosine_similarity :: "vec list \<Rightarrow> vec list \<Rightarrow> error + real list list" where
  "cosine_similarity X Y =
    (if \<not> check_array X \<or> \<not> check_array Y then Inl ValueError
     else if n_features X \<noteq> n_features Y then Inl ValueError
     else Inr (map (\<lambda>x. map (\<lambda>y. dot (normalize x) (normalize y)) Y) X))"

text \<open>
  \<^verbatim>\<open>ndarray.argsort()\<close> is called with numpy's default sort kind. It returns the
  positions \<open>0 .. n-1\<close> in an order of ascending value; the default kind is not a
  stable sort, so numpy does not fix the order it gives to positions of equal value. The
  routine is therefore a parameter of the model: a value of \<open>sorter\<close> is the behaviour
  of \<^verbatim>\<open>argsort\<close> during one run, the order of positions it returns for each array.
\<close>

type_synonym sorter = "real list \<Rightarrow> nat list"

text \<open>The Python slice \<^verbatim>\<open>xs[s:]\<close> for an integer \<open>s\<close>.\<close>

definition slice_from :: "int \<Rightarrow> 'a list \<Rightarrow> 'a list" where
  "slice_from s xs =
    (let n = int (length xs);
         start = (if s < 0 then max 0 (s + n) else min s n)
     in drop (nat start) xs)"

text \<open>\<^verbatim>\<open>np.argmin\<close>: the first position of the least value; raises on an empty array.\<close>

fun argmin_from :: "real \<Rightarrow> nat \<Rightarrow> nat \<Rightarrow> real list \<Rightarrow> nat" where
  "argmin_from best besti i [] = besti"
| "argmin_from best besti i (x # xs) =
     (if x < best then argmin_from x i (Suc i) xs else argmin_from best besti (Suc i) xs)"

definition argmin :: "real list \<Rightarrow> error + nat" where
  "argmin ds = (case ds of [] \<Rightarrow> Inl ValueError | d # rest \<Rightarrow> Inr (argmin_from d 0 1 rest))"

text \<open>
  \<^verbatim>\<open>np.linalg.norm(rows - center, axis=1)\<close> for a matrix whose rows have \<open>d\<close> columns:
  the subtraction broadcasts when the lengths agree or one of them is 1, and raises
  otherwise.
\<close>

definition sub_broadcast :: "vec \<Rightarrow> vec \<Rightarrow> vec" where
  "sub_broadcast a c =
    (if length a = length c then map2 (\<lambda>x y. x - y) a c
     else if length c = 1 then map (\<lambda>x. x - hd c) a
     else map (\<lambda>y. hd a - y) c)"

definition row_distances :: "nat \<Rightarrow> vec list \<Rightarrow> vec \<Rightarrow> error + real list" where
  "row_distances d rows c =
    (if d = length c \<or> length c = 1 \<or> d = 1
     then Inr (map (\<lambda>a. l2norm (sub_broadcast a c)) rows)
     else Inl ValueError)"

text \<open>
  \<^verbatim>\<open>sklearn.cluster.KMeans\<close> is an external, randomly initialised routine. A value of
  \<open>kmeans\<close> is the outcome of one fit: from the number of clusters and the data, the
  \<^verbatim>\<open>labels_\<close> (one cluster number per row) and the \<^verbatim>\<open>cluster_centers_\<close>. The library
  validates its arguments before it fits: the number of clusters must be at least 1, the
  data a proper matrix, and there must be at least as many rows as clusters.
\<close>

type_synonym kmeans = "nat \<Rightarrow> vec list \<Rightarrow> nat list \<times> vec list"

definition KMeans_fit :: "kmeans \<Rightarrow> int \<Rightarrow> vec list \<Rightarrow> error + (nat list \<times> vec list)" where
  "KMeans_fit km n_clusters X =
    (if n_clusters < 1 then Inl InvalidParameterError
     else if \<not> check_array X then Inl ValueError
     else if int (length X) < n_clusters then Inl ValueError
     else Inr (km (nat n_clusters) X))"

section \<open>Retrieval\<close>

text \<open>Line 218: \<^verbatim>\<open>similarities.argsort()[-top_k:][::-1]\<close>.\<close>

definition top_indices :: "sorter \<Rightarrow> real list \<Rightarrow> int \<Rightarrow> nat list" where
  "top_indices argsort similarities top_k = rev (slice_from (- top_k) (argsort similarities))"

text \<open>Lines 216-217: the similarities of the query to every stored embedding.\<close>

definition query_similarities :: "provider \<Rightarrow> state \<Rightarrow> string \<Rightarrow> error + real list" where
  "query_similarities p st query =
    (case encode p [query] of
       Inl e \<Rightarrow> Inl e
     | Inr query_embedding \<Rightarrow>
        (case cosine_similarity query_embedding (knowledge_embeddings st) of
           Inl e \<Rightarrow> Inl e
         | Inr S \<Rightarrow> getitem S 0))"

text \<open>Lines 216-219: the body of the \<^verbatim>\<open>try\<close> block.\<close>

definition retrieve_try ::
  "sorter \<Rightarrow> provider \<Rightarrow> state \<Rightarrow> string \<Rightarrow> int \<Rightarrow> error + string list" where
  "retrieve_try argsort p st query top_k =
    (case query_similarities p st query of
       Inl e \<Rightarrow> Inl e
     | Inr similarities \<Rightarrow>
         collect (getitem (knowledge_base st)) (top_indices argsort similarities top_k))"

text \<open>
  Lines 214-222: \<^verbatim>\<open>except Exception\<close> logs and returns the empty list. The result type
  keeps the possibility of an exception, so that "does not raise" is a statement.
\<close>

definition retrieve_relevant_context ::
  "sorter \<Rightarrow> provider \<Rightarrow> state \<Rightarrow> string \<Rightarrow> int \<Rightarrow> error + string list" where
  "retrieve_relevant_context argsort p st query top_k =
    (case retrieve_try argsort p st query top_k of
       Inl e \<Rightarrow> Inr []
     | Inr context \<Rightarrow> Inr context)"

section \<open>The active-learning system\<close>

text \<open>Lines 102-106.\<close>

definition evaluate_certainty :: "string \<Rightarrow> string \<Rightarrow> bool" where
  "evaluate_certainty query response = (length response > 50)"

definition add_uncertain_query :: "state \<Rightarrow> string \<Rightarrow> string \<Rightarrow> state" where
  "add_uncertain_query st query response =
    st\<lparr>uncertain_queries := uncertain_queries st @ [(query, response)]\<rparr>"

text \<open>Line 122: \<^verbatim>\<open>np.where(kmeans.labels_ == i)[0]\<close>.\<close>

definition cluster_indices :: "nat list \<Rightarrow> nat \<Rightarrow> nat list" where
  "cluster_indices labels i = filter (\<lambda>j. labels ! j = i) [0..<length labels]"

text \<open>Lines 122-126: one pass of the loop body, for cluster \<open>i\<close>.\<close>

definition representative ::
  "(string \<times> string) list \<Rightarrow> vec list \<Rightarrow> nat list \<Rightarrow> vec list \<Rightarrow> nat \<Rightarrow> error + (string \<times> string)" where
  "representative queue embeddings labels centers i =
    (let ci = cluster_indices labels i in
     case getitem centers i of
       Inl e \<Rightarrow> Inl e
     | Inr center_embedding \<Rightarrow>
        (case collect (getitem embeddings) ci of
           Inl e \<Rightarrow> Inl e
         | Inr rows \<Rightarrow>
            (case row_distances (n_features embeddings) rows center_embedding of
               Inl e \<Rightarrow> Inl e
             | Inr distances \<Rightarrow>
                (case argmin distances of
                   Inl e \<Rightarrow> Inl e
                 | Inr a \<Rightarrow>
                    (case getitem ci a of
                       Inl e \<Rightarrow> Inl e
                     | Inr representative_index \<Rightarrow> getitem queue representative_index)))))"

text \<open>The calls to external collaborators that one curation pass makes, in order.\<close>

datatype call = EncodeCall "string list" | KMeansCall int "vec list"

text \<open>
  Lines 108-128. The method only reads \<^verbatim>\<open>self.uncertain_queries\<close>; the state it leaves
  is returned first, then the external calls it made, then its outcome.
\<close>

definition cluster_uncertain_queries ::
  "provider \<Rightarrow> kmeans \<Rightarrow> state \<Rightarrow> int \<Rightarrow> state \<times> call list \<times> (error + (string \<times> string) list)" where
  "cluster_uncertain_queries p km st n_clusters =
    (if int (length (uncertain_queries st)) < n_clusters
     then (st, [], Inr (uncertain_queries st))
     else
       let queries = map fst (uncertain_queries st) in
       case encode p queries of
         Inl e \<Rightarrow> (st, [EncodeCall queries], Inl e)
       | Inr embeddings \<Rightarrow>
          (case KMeans_fit km n_clusters embeddings of
             Inl e \<Rightarrow> (st, [EncodeCall queries, KMeansCall n_clusters embeddings], Inl e)
           | Inr (labels, centers) \<Rightarrow>
               (st, [EncodeCall queries, KMeansCall n_clusters embeddings],
                collect (representative (uncertain_queries st) embeddings labels centers)
                  [0..<nat n_clusters])))"

section \<open>Answering a query\<close>

text \<open>
  The chat completion client, the sentiment pipeline and \<^verbatim>\<open>random.choice\<close> are
  external. \<open>chat_completion\<close> maps the user message to the content of the first choice;
  \<open>sentiment_analyzer k\<close> is the \<open>k\<close>-th call of the pipeline within one request and
  gives the label and score of its first result; \<open>random_index\<close> is the position that
  \<^verbatim>\<open>random.choice\<close> draws.
\<close>

record env =
  chat_completion :: "string \<Rightarrow> error + string"
  sentiment_analyzer :: "nat \<Rightarrow> string \<Rightarrow> error + (string \<times> real)"
  random_index :: nat

text \<open>
  \<^verbatim>\<open>str.strip()\<close>: whitespace is removed at both ends. A text is a list of 8-bit
  characters here, so the whitespace characters are those that Python knows below 256.
\<close>

definition isspace :: "char \<Rightarrow> bool" where
  "isspace c = (of_char c \<in> set [9, 10, 11, 12, 13, 28, 29, 30, 31, 32, 133, 160 :: nat])"

definition strip :: "string \<Rightarrow> string" where
  "strip s = rev (dropWhile isspace (rev (dropWhile isspace s)))"

text \<open>\<^verbatim>\<open>" ".join(xs)\<close>.\<close>

fun join_space :: "string list \<Rightarrow> string" where
  "join_space [] = []"
| "join_space [x] = x"
| "join_space (x # y # ys) = x @ '' '' @ join_space (y # ys)"

text \<open>
  Lines 62-73: a template is the text before and the text after \<^verbatim>\<open>{response}\<close>.
\<close>

definition response_templates :: "string \<Rightarrow> (string \<times> string) list" where
  "response_templates sentiment =
    (if sentiment = ''POSITIVE'' then
       [(''I'm glad to hear your positive feedback! '', []),
        (''That's great! '', []),
        (''Thank you for your support! '', [])]
     else
       [(''I'm sorry to hear you're having issues. '', '' Let's work together to resolve this.''),
        (''I understand your frustration. '', '' We'll do our best to help you.''),
        (''I apologize for the inconvenience. '',
         '' Please let me know if there's anything else I can assist you with.'')])"

text \<open>Lines 76-92.\<close>

definition analyze_sentiment_and_personalize ::
  "env \<Rightarrow> string \<Rightarrow> string \<Rightarrow> error + (string \<times> string)" where
  "analyze_sentiment_and_personalize ev query response =
    (case sentiment_analyzer ev 0 query of
       Inl e \<Rightarrow> Inl e
     | Inr (label, sentiment_score) \<Rightarrow>
        (let sentiment =
               (if label = ''POSITIVE'' \<and> sentiment_score > 6 / 10 then ''POSITIVE''
                else if label = ''NEGATIVE'' \<and> sentiment_score > 6 / 10 then ''NEGATIVE''
                else ''NEUTRAL'')
         in if sentiment = ''POSITIVE'' \<or> sentiment = ''NEGATIVE'' then
              (let templates = response_templates sentiment;
                   template = templates ! (random_index ev mod length templates)
               in Inr (fst template @ response @ snd template, sentiment))
            else Inr (response, sentiment)))"

text \<open>
  What \<^verbatim>\<open>generate_response\<close> returns: the personalised answer, or the text built from
  the exception it caught.
\<close>

datatype reply = Answer string | ErrorOccurred error

text \<open>
  Lines 225-262. The interaction log of the analytics system and the clock are not part
  of the state modelled here; the second call of the sentiment pipeline (line 254) is,
  because it can raise after the queue has been written.
\<close>

definition generate_response ::
  "sorter \<Rightarrow> provider \<Rightarrow> env \<Rightarrow> state \<Rightarrow> string \<Rightarrow> state \<times> reply" where
  "generate_response argsort p ev st query =
    (case retrieve_relevant_context argsort p st query 2 of
       Inl e \<Rightarrow> (st, ErrorOccurred e)
     | Inr relevant_context \<Rightarrow>
        (let context_text = join_space relevant_context;
             content = ''Context: '' @ context_text @ [CHR 0x0A, CHR 0x0A] @ ''Question: '' @ query
         in case chat_completion ev content of
              Inl e \<Rightarrow> (st, ErrorOccurred e)
            | Inr message \<Rightarrow>
               (let raw_response = strip message in
                case analyze_sentiment_and_personalize ev query raw_response of
                  Inl e \<Rightarrow> (st, ErrorOccurred e)
                | Inr (personalized_response, sentiment) \<Rightarrow>
                   (let st1 = (if \<not> evaluate_certainty query raw_response
                               then add_uncertain_query st query raw_response
                               else st)
                    in case sentiment_analyzer ev 1 query of
                         Inl e \<Rightarrow> (st1, ErrorOccurred e)
                       | Inr _ \<Rightarrow> (st1, Answer personalized_response)))))"

section \<open>Predicates used to state the properties\<close>

text \<open>
  What numpy promises of \<^verbatim>\<open>order = a.argsort()\<close>: every position of the array once,
  with the values in ascending order.
\<close>

definition argsort_ok :: "real list \<Rightarrow> nat list \<Rightarrow> bool" where
  "argsort_ok a order = (mset order = mset [0..<length a] \<and> sorted (map ((!) a) order))"

text \<open>
  The similarity metric of the specification (section 4.1 and glossary), written from its
  words and not from the code: the cosine of the angle between two vectors, the inner
  product divided by the product of the lengths, and 0 when one of them is the zero
  vector.
\<close>

definition cosine_spec :: "vec \<Rightarrow> vec \<Rightarrow> real" where
  "cosine_spec x y =
    (if (\<Sum>i<length x. (x ! i)\<^sup>2) = 0 \<or> (\<Sum>i<length y. (y ! i)\<^sup>2) = 0 then 0
     else (\<Sum>i<length x. x ! i * y ! i)
            / (sqrt (\<Sum>i<length x. (x ! i)\<^sup>2) * sqrt (\<Sum>i<length y. (y ! i)\<^sup>2)))"

text \<open>The cosine similarity of the query embedding to each stored embedding.\<close>

definition similarities_of :: "provider \<Rightarrow> state \<Rightarrow> string \<Rightarrow> real list" where
  "similarities_of p st query = map (cosine_spec (embed p query)) (knowledge_embeddings st)"

text \<open>
  The embeddings can be compared with the query: the provider responds, the stored
  embeddings form a matrix with the dimension of the query embedding, and every embedding
  has its entry. (After a failed update there are entries without an embedding.)
\<close>

definition embeddings_ready :: "provider \<Rightarrow> state \<Rightarrow> string \<Rightarrow> bool" where
  "embeddings_ready p st query =
    (\<not> unavailable p [query]
     \<and> check_array (knowledge_embeddings st)
     \<and> length (embed p query) = n_features (knowledge_embeddings st)
     \<and> length (knowledge_embeddings st) \<le> length (knowledge_base st))"

text \<open>
  The index answers the query: the embeddings can be compared with the query and
  \<^verbatim>\<open>argsort\<close> keeps numpy's promise on the similarities.
\<close>

definition index_ready :: "sorter \<Rightarrow> provider \<Rightarrow> state \<Rightarrow> string \<Rightarrow> bool" where
  "index_ready argsort p st query =
    (embeddings_ready p st query
     \<and> argsort_ok (similarities_of p st query) (argsort (similarities_of p st query)))"

text \<open>
  The positions that rank highest for a query: the order of \<^verbatim>\<open>argsort\<close> on the cosine
  similarities, cut and reversed as line 218 does.
\<close>

definition ranking :: "sorter \<Rightarrow> provider \<Rightarrow> state \<Rightarrow> string \<Rightarrow> int \<Rightarrow> nat list" where
  "ranking argsort p st query top_k = top_indices argsort (similarities_of p st query) top_k"

text \<open>
  What scikit-learn promises about the result of a fit with \<open>n\<close> clusters on the rows
  \<open>X\<close>: one label below \<open>n\<close> per row, and \<open>n\<close> centres of the dimension of the rows.
\<close>

definition kmeans_result_ok :: "nat \<Rightarrow> vec list \<Rightarrow> nat list \<times> vec list \<Rightarrow> bool" where
  "kmeans_result_ok n X r =
    (length (fst r) = length X \<and> list_all (\<lambda>l. l < n) (fst r)
     \<and> length (snd r) = n \<and> list_all (\<lambda>c. length c = n_features X) (snd r))"

section \<open>Concrete inputs\<close>

text \<open>A provider that responds, and one that raises on every call.\<close>

definition up_provider :: provider where
  "up_provider = \<lparr>embed = (\<lambda>t. [real (length t), 1]), unavailable = (\<lambda>_. False)\<rparr>"

definition down_provider :: provider where
  "down_provider = \<lparr>embed = (\<lambda>t. [real (length t), 1]), unavailable = (\<lambda>_. True)\<rparr>"

text \<open>A provider whose embeddings lie on the axes of the plane.\<close>

definition axis_provider :: provider where
  "axis_provider = \<lparr>embed = (\<lambda>t. if t = ''Store hours'' \<or> t = ''What are your hours?'' then [1, 0]
                                 else if t = ''Refund policy'' then [0, 1]
                                 else if t = ''Warranty'' then [- 1, 0]
                                 else [1, 1]),
                    unavailable = (\<lambda>_. False)\<rparr>"

definition small_state :: state where
  "small_state = \<lparr>knowledge_base = [''a''], knowledge_embeddings = [[1, 1]], uncertain_queries = []\<rparr>"

definition initial_state :: state where
  "initial_state = \<lparr>knowledge_base = initial_knowledge_base,
                     knowledge_embeddings = map (embed up_provider) initial_knowledge_base,
                     uncertain_queries = []\<rparr>"

text \<open>
  Two behaviours of \<^verbatim>\<open>argsort\<close> that numpy allows. \<open>insertion_argsort\<close> leaves
  positions of equal value in ascending order; it is the insertion sort that numpy's
  scalar quicksort runs on arrays of at most 16 elements. \<open>descending_ties_argsort\<close>
  leaves positions of equal value in descending order.
\<close>

definition insertion_argsort :: sorter where
  "insertion_argsort a = sort_key (\<lambda>i. a ! i) [0..<length a]"

definition descending_ties_argsort :: sorter where
  "descending_ties_argsort a = sort_key (\<lambda>i. a ! i) (rev [0..<length a])"

text \<open>The initial index after one update in which the provider raised.\<close>

definition unpaired_state :: state where
  "unpaired_state = fst (update_knowledge_base down_provider initial_state [''New policy''])"

text \<open>Two entries at the same angle from the query \<open>''q''\<close> of \<open>axis_provider\<close>.\<close>

definition tie_state :: state where
  "tie_state = \<lparr>knowledge_base = [''Store hours'', ''Refund policy''],
                 knowledge_embeddings = [[1, 0], [0, 1]],
                 uncertain_queries = []\<rparr>"

definition three_entries :: state where
  "three_entries = \<lparr>knowledge_base = [''Refund policy'', ''Warranty'', ''Store hours''],
                 knowledge_embeddings = [[0, 1], [- 1, 0], [1, 0]],
                 uncertain_queries = []\<rparr>"

text \<open>States that cannot answer a query: no entries; more embeddings than entries;
  embeddings of another dimension.\<close>

definition empty_state :: state where
  "empty_state = \<lparr>knowledge_base = [], knowledge_embeddings = [], uncertain_queries = []\<rparr>"

definition corrupted_state :: state where
  "corrupted_state = \<lparr>knowledge_base = [''Store hours''],
                       knowledge_embeddings = [[1, 0], [0, 1]],
                       uncertain_queries = []\<rparr>"

definition mismatch_state :: state where
  "mismatch_state = \<lparr>knowledge_base = [''Store hours''],
                      knowledge_embeddings = [[1, 0, 0]],
                      uncertain_queries = []\<rparr>"

text \<open>Queues: three cases, two cases, and the same query asked five times.\<close>

definition three_cases :: state where
  "three_cases = \<lparr>knowledge_base = [''a''], knowledge_embeddings = [[1, 1]],
                   uncertain_queries = [(''q1'', ''a1''), (''q2'', ''a2''), (''q3'', ''a3'')]\<rparr>"

definition two_cases :: state where
  "two_cases = \<lparr>knowledge_base = [''a''], knowledge_embeddings = [[1, 1]],
                 uncertain_queries = [(''aa'', ''x''), (''bbbb'', ''y'')]\<rparr>"

definition duplicate_cases :: state where
  "duplicate_cases = \<lparr>knowledge_base = [''a''], knowledge_embeddings = [[1, 1]],
      uncertain_queries = replicate 5 (''Where is my order?'', ''Please wait.'')\<rparr>"

text \<open>
  Clustering outcomes. \<open>one_cluster\<close> puts every row into cluster 0 and gives every
  centre the position of the first row: what k-means finds when all rows are the same
  point (scikit-learn then warns that the number of distinct clusters found is smaller
  than \<^verbatim>\<open>n_clusters\<close>). \<open>identity_clusters\<close> gives every row its own cluster.
\<close>

definition one_cluster :: kmeans where
  "one_cluster n X = (replicate (length X) 0, replicate n (hd X))"

definition identity_clusters :: kmeans where
  "identity_clusters n X = ([0..<length X], X)"

text \<open>Collaborators that answer with a fixed text and a weak sentiment.\<close>

definition fixed_env :: "string \<Rightarrow> env" where
  "fixed_env answer = \<lparr>chat_completion = (\<lambda>_. Inr answer),
                        sentiment_analyzer = (\<lambda>_ _. Inr (''POSITIVE'', 1 / 2)),
                        random_index = 0\<rparr>"

section \<open>Lemmas about the library functions\<close>

lemma collect_getitem:
  "\<forall>i\<in>set is. i < length xs \<Longrightarrow> collect (getitem xs) is = Inr (map ((!) xs) is)"
  by (induction "is") (simp_all add: getitem_def)

lemma collect_getitem_out_of_range:
  "i \<in> set is \<Longrightarrow> length xs \<le> i \<Longrightarrow> collect (getitem xs) is = Inl IndexError"
  by (induction "is") (auto simp: getitem_def)

lemma collect_Inr_pointwise:
  assumes "\<forall>x\<in>set xs. \<exists>y. f x = Inr y \<and> P x y"
  shows "\<exists>ys. collect f xs = Inr ys \<and> length ys = length xs \<and> (\<forall>k<length xs. P (xs ! k) (ys ! k))"
  using assms
proof (induction xs)
  case Nil
  then show ?case by simp
next
  case (Cons x xs)
  then obtain y where y: "f x = Inr y" "P x y" by auto
  from Cons obtain ys where ys: "collect f xs = Inr ys" "length ys = length xs"
      "\<forall>k<length xs. P (xs ! k) (ys ! k)" by auto
  have "\<forall>k<length (x # xs). P ((x # xs) ! k) ((y # ys) ! k)"
    using y(2) ys(3) by (auto simp: nth_Cons')
  then show ?case using y(1) ys(1) ys(2) by auto
qed

lemma collect_first_failure:
  assumes "collect f xs = Inr ys" "f x = Inl e"
  shows "collect f (xs @ x # zs) = Inl e"
  using assms by (induction xs arbitrary: ys) (auto split: sum.splits)

lemma check_array_n_features: "check_array X \<Longrightarrow> 0 < n_features X"
  by (auto simp: check_array_def n_features_def split: list.splits)

lemma check_array_rows:
  "check_array X \<Longrightarrow> j < length X \<Longrightarrow> length (X ! j) = n_features X"
  by (auto simp: check_array_def n_features_def list_all_length split: list.splits)

lemma check_array_replicate: "0 < n \<Longrightarrow> v \<noteq> [] \<Longrightarrow> check_array (replicate n v)"
  by (cases n) (simp_all add: check_array_def list_all_iff)

subsection \<open>Sorting positions\<close>

text \<open>What follows from numpy's promise about \<^verbatim>\<open>argsort\<close>.\<close>

lemma argsort_ok_set: "argsort_ok a order \<Longrightarrow> set order = {0..<length a}"
  by (metis argsort_ok_def mset_eq_setD set_upt)

lemma argsort_ok_distinct: "argsort_ok a order \<Longrightarrow> distinct order"
  by (metis argsort_ok_def distinct_upt mset_eq_imp_distinct_iff)

lemma argsort_ok_length: "argsort_ok a order \<Longrightarrow> length order = length a"
  by (metis argsort_ok_def length_upt mset_eq_length diff_zero)

lemma argsort_ok_ascending:
  "argsort_ok a order \<Longrightarrow> sorted_wrt (\<lambda>i j. a ! i \<le> a ! j) order"
  by (simp add: argsort_ok_def sorted_map)

lemma slice_from_drop: "\<exists>n. slice_from s xs = drop n xs"
  by (auto simp: slice_from_def Let_def)

lemma slice_from_length_pos:
  "0 < k \<Longrightarrow> length (slice_from (- k) xs) = min (nat k) (length xs)"
  by (auto simp: slice_from_def Let_def)

lemma slice_from_all: "0 < k \<Longrightarrow> int (length xs) \<le> k \<Longrightarrow> slice_from (- k) xs = xs"
  by (auto simp: slice_from_def Let_def)

lemma top_indices_length_le: "0 < k \<Longrightarrow> length (top_indices argsort a k) \<le> nat k"
  by (simp add: top_indices_def slice_from_length_pos)

lemma top_indices_length:
  "0 < k \<Longrightarrow> argsort_ok a (argsort a) \<Longrightarrow> length (top_indices argsort a k) = min (nat k) (length a)"
  by (simp add: top_indices_def slice_from_length_pos argsort_ok_length)

lemma top_indices_descending:
  assumes "argsort_ok a (argsort a)"
  shows "sorted_wrt (\<lambda>i j. a ! j \<le> a ! i) (top_indices argsort a k)"
proof -
  obtain n where n: "slice_from (- k) (argsort a) = drop n (argsort a)"
    using slice_from_drop by blast
  have "sorted_wrt (\<lambda>i j. a ! i \<le> a ! j) (drop n (argsort a))"
    using argsort_ok_ascending [OF assms] by (rule sorted_wrt_drop)
  then show ?thesis
    by (simp add: top_indices_def n sorted_wrt_rev)
qed

lemma top_indices_set:
  assumes "argsort_ok a (argsort a)"
  shows "set (top_indices argsort a k) \<subseteq> {0..<length a}"
proof -
  obtain n where n: "slice_from (- k) (argsort a) = drop n (argsort a)"
    using slice_from_drop by blast
  show ?thesis
    using set_drop_subset [of n "argsort a"] argsort_ok_set [OF assms]
    by (simp add: top_indices_def n)
qed

lemma top_indices_distinct:
  assumes "argsort_ok a (argsort a)"
  shows "distinct (top_indices argsort a k)"
proof -
  obtain n where n: "slice_from (- k) (argsort a) = drop n (argsort a)"
    using slice_from_drop by blast
  show ?thesis
    using argsort_ok_distinct [OF assms] by (simp add: top_indices_def n)
qed

lemma top_indices_best:
  assumes ok: "argsort_ok a (argsort a)"
    and "i \<in> set (top_indices argsort a k)" "j < length a" "j \<notin> set (top_indices argsort a k)"
  shows "a ! j \<le> a ! i"
proof -
  obtain n where n: "slice_from (- k) (argsort a) = drop n (argsort a)"
    using slice_from_drop by blast
  have split: "argsort a = take n (argsort a) @ drop n (argsort a)" by simp
  have i: "i \<in> set (drop n (argsort a))" using assms(2) by (simp add: top_indices_def n)
  have "j \<in> set (argsort a)" using assms(3) argsort_ok_set [OF ok] by simp
  moreover have "j \<notin> set (drop n (argsort a))" using assms(4) by (simp add: top_indices_def n)
  ultimately have j: "j \<in> set (take n (argsort a))"
    using split by (metis Un_iff set_append)
  have "sorted_wrt (\<lambda>i j. a ! i \<le> a ! j) (take n (argsort a) @ drop n (argsort a))"
    using argsort_ok_ascending [OF ok] by simp
  then show ?thesis
    using i j unfolding sorted_wrt_append by blast
qed

lemma top_indices_everything:
  assumes "argsort_ok a (argsort a)" "0 < k" "int (length a) \<le> k"
  shows "mset (top_indices argsort a k) = mset [0..<length a]"
proof -
  have "top_indices argsort a k = rev (argsort a)"
    using assms by (simp add: top_indices_def slice_from_all argsort_ok_length)
  then show ?thesis using assms(1) by (simp add: argsort_ok_def)
qed

text \<open>The entry ranked \<open>r\<close>-th is the \<open>r\<close>-th from the end of the order of \<^verbatim>\<open>argsort\<close>.\<close>

lemma top_indices_nth:
  assumes "r < length (top_indices argsort a k)"
  shows "top_indices argsort a k ! r = argsort a ! (length (argsort a) - 1 - r)"
proof -
  obtain n where n: "slice_from (- k) (argsort a) = drop n (argsort a)"
    using slice_from_drop by blast
  have r: "r < length (argsort a) - n" using assms by (simp add: top_indices_def n)
  then have "rev (drop n (argsort a)) ! r = drop n (argsort a) ! (length (argsort a) - n - 1 - r)"
    by (simp add: rev_nth)
  also have "\<dots> = argsort a ! (n + (length (argsort a) - n - 1 - r))"
    using r by (intro nth_drop) simp
  also have "n + (length (argsort a) - n - 1 - r) = length (argsort a) - 1 - r"
    using r by simp
  finally show ?thesis by (simp add: top_indices_def n)
qed

text \<open>
  A stable insertion sort of positions that start in the order \<open>R\<close> orders them by
  value and, among equal values, by \<open>R\<close>.
\<close>

lemma insort_key_lex:
  fixes f :: "nat \<Rightarrow> real"
  assumes "sorted_wrt (\<lambda>i j. f i < f j \<or> (f i = f j \<and> R i j)) ys" "\<forall>y\<in>set ys. R x y"
  shows "sorted_wrt (\<lambda>i j. f i < f j \<or> (f i = f j \<and> R i j)) (insort_key f x ys)"
  using assms
proof (induction ys)
  case Nil
  then show ?case by simp
next
  case (Cons y ys)
  show ?case
  proof (cases "f x \<le> f y")
    case True
    have "\<forall>z\<in>set ys. f y \<le> f z" using Cons.prems(1) by auto
    with True Cons.prems show ?thesis by fastforce
  next
    case False
    with Cons show ?thesis by (auto simp: set_insort_key)
  qed
qed

lemma sort_key_lex:
  fixes f :: "nat \<Rightarrow> real"
  assumes "sorted_wrt R xs"
  shows "sorted_wrt (\<lambda>i j. f i < f j \<or> (f i = f j \<and> R i j)) (sort_key f xs)"
  using assms
proof (induction xs)
  case Nil
  then show ?case by simp
next
  case (Cons x xs)
  have "sort_key f (x # xs) = insort_key f x (sort_key f xs)" by (simp add: sort_key_def)
  moreover have "\<forall>y\<in>set (sort_key f xs). R x y" using Cons.prems by auto
  ultimately show ?case using Cons insort_key_lex [of f R] by auto
qed

lemma insertion_argsort_lex:
  "sorted_wrt (\<lambda>i j. a ! i < a ! j \<or> (a ! i = a ! j \<and> i < j)) (insertion_argsort a)"
  unfolding insertion_argsort_def by (rule sort_key_lex) simp

lemma descending_ties_argsort_lex:
  "sorted_wrt (\<lambda>i j. a ! i < a ! j \<or> (a ! i = a ! j \<and> j < i)) (descending_ties_argsort a)"
  unfolding descending_ties_argsort_def
  by (rule sort_key_lex [where R = "\<lambda>i j. j < i"]) (simp add: sorted_wrt_rev)

lemma insertion_argsort_ok: "argsort_ok a (insertion_argsort a)"
  by (simp add: argsort_ok_def insertion_argsort_def sorted_sort_key [of "(!) a"] flip: map_nth)

lemma descending_ties_argsort_ok: "argsort_ok a (descending_ties_argsort a)"
  by (simp add: argsort_ok_def descending_ties_argsort_def sorted_sort_key [of "(!) a"])

lemma top_indices_insertion_ties:
  "sorted_wrt (\<lambda>i j. a ! j < a ! i \<or> (a ! j = a ! i \<and> j < i)) (top_indices insertion_argsort a k)"
proof -
  obtain n where n: "slice_from (- k) (insertion_argsort a) = drop n (insertion_argsort a)"
    using slice_from_drop by blast
  have "sorted_wrt (\<lambda>i j. a ! i < a ! j \<or> (a ! i = a ! j \<and> i < j)) (drop n (insertion_argsort a))"
    using insertion_argsort_lex by (rule sorted_wrt_drop)
  then show ?thesis
    by (simp add: top_indices_def n sorted_wrt_rev)
qed

lemma top_indices_descending_ties:
  "sorted_wrt (\<lambda>i j. a ! j < a ! i \<or> (a ! j = a ! i \<and> i < j))
     (top_indices descending_ties_argsort a k)"
proof -
  obtain n where n: "slice_from (- k) (descending_ties_argsort a) = drop n (descending_ties_argsort a)"
    using slice_from_drop by blast
  have "sorted_wrt (\<lambda>i j. a ! i < a ! j \<or> (a ! i = a ! j \<and> j < i))
          (drop n (descending_ties_argsort a))"
    using descending_ties_argsort_lex by (rule sorted_wrt_drop)
  then show ?thesis
    by (simp add: top_indices_def n sorted_wrt_rev)
qed

subsection \<open>The similarity the code computes is the cosine\<close>

lemma sum_list_nth_sum: "sum_list (xs :: real list) = (\<Sum>i<length xs. xs ! i)"
  by (simp add: sum_list_sum_nth atLeast0LessThan)

lemma l2norm_sum: "l2norm a = sqrt (\<Sum>i<length a. (a ! i)\<^sup>2)"
  by (simp add: l2norm_def sum_list_nth_sum power2_eq_square)

lemma dot_sum: "length a = length b \<Longrightarrow> dot a b = (\<Sum>i<length a. a ! i * b ! i)"
  by (simp add: dot_def sum_list_nth_sum)

lemma zero_norm_entries:
  assumes "(\<Sum>i<length a. (a ! i)\<^sup>2) = (0 :: real)" "i < length a"
  shows "a ! i = 0"
proof -
  have "\<forall>i\<in>{..<length a}. (a ! i)\<^sup>2 = 0"
    using assms(1) by (subst (asm) sum_nonneg_eq_0_iff) auto
  then show ?thesis using assms(2) by simp
qed

lemma cosine_refines:
  assumes len: "length x = length y"
  shows "dot (normalize x) (normalize y) = cosine_spec x y"
proof -
  let ?sx = "\<Sum>i<length x. (x ! i)\<^sup>2" and ?sy = "\<Sum>i<length y. (y ! i)\<^sup>2"
  let ?nx = "if l2norm x = 0 then 1 else l2norm x"
  let ?ny = "if l2norm y = 0 then 1 else l2norm y"
  have nx: "l2norm x = sqrt ?sx" and ny: "l2norm y = sqrt ?sy" by (rule l2norm_sum)+
  have d: "dot (normalize x) (normalize y) = (\<Sum>i<length x. (x ! i / ?nx) * (y ! i / ?ny))"
    using len by (simp add: dot_sum normalize_def Let_def)
  show ?thesis
  proof (cases "?sx = 0 \<or> ?sy = 0")
    case True
    have "x ! i = 0 \<or> y ! i = 0" if "i < length x" for i
      using True zero_norm_entries [of x i] zero_norm_entries [of y i] that len by auto
    then have "\<forall>i\<in>{..<length x}. (x ! i / ?nx) * (y ! i / ?ny) = 0" by auto
    then have "(\<Sum>i<length x. (x ! i / ?nx) * (y ! i / ?ny)) = 0" by (rule sum.neutral)
    then show ?thesis using True by (simp add: d cosine_spec_def)
  next
    case False
    then have nz: "l2norm x \<noteq> 0" "l2norm y \<noteq> 0" by (simp_all add: nx ny)
    have "(\<Sum>i<length x. (x ! i / ?nx) * (y ! i / ?ny))
            = (\<Sum>i<length x. x ! i * y ! i / (l2norm x * l2norm y))"
      using nz by simp
    also have "\<dots> = (\<Sum>i<length x. x ! i * y ! i) / (l2norm x * l2norm y)"
      by (simp add: sum_divide_distrib)
    finally show ?thesis using False by (simp add: d cosine_spec_def nx ny)
  qed
qed

subsection \<open>The least distance\<close>

lemma argmin_from_spec:
  "(argmin_from best besti i xs = besti \<and> best \<le> best \<and> (\<forall>x\<in>set xs. best \<le> x))
   \<or> (i \<le> argmin_from best besti i xs \<and> argmin_from best besti i xs < i + length xs
       \<and> xs ! (argmin_from best besti i xs - i) \<le> best
       \<and> (\<forall>x\<in>set xs. xs ! (argmin_from best besti i xs - i) \<le> x))"
proof (induction xs arbitrary: best besti i)
  case Nil
  then show ?case by simp
next
  case (Cons x xs)
  show ?case
  proof (cases "x < best")
    case True
    from Cons.IH [of x i "Suc i"] show ?thesis
    proof
      assume a: "argmin_from x i (Suc i) xs = i \<and> x \<le> x \<and> (\<forall>y\<in>set xs. x \<le> y)"
      then show ?thesis using True by simp
    next
      assume a: "Suc i \<le> argmin_from x i (Suc i) xs \<and> argmin_from x i (Suc i) xs < Suc i + length xs
       \<and> xs ! (argmin_from x i (Suc i) xs - Suc i) \<le> x
       \<and> (\<forall>y\<in>set xs. xs ! (argmin_from x i (Suc i) xs - Suc i) \<le> y)"
      let ?r = "argmin_from x i (Suc i) xs"
      have "(x # xs) ! (?r - i) = xs ! (?r - Suc i)"
        using a by (simp add: nth_Cons')
      then show ?thesis using a True by auto
    qed
  next
    case False
    from Cons.IH [of best besti "Suc i"] show ?thesis
    proof
      assume a: "argmin_from best besti (Suc i) xs = besti \<and> best \<le> best \<and> (\<forall>y\<in>set xs. best \<le> y)"
      then show ?thesis using False by simp
    next
      assume a: "Suc i \<le> argmin_from best besti (Suc i) xs
       \<and> argmin_from best besti (Suc i) xs < Suc i + length xs
       \<and> xs ! (argmin_from best besti (Suc i) xs - Suc i) \<le> best
       \<and> (\<forall>y\<in>set xs. xs ! (argmin_from best besti (Suc i) xs - Suc i) \<le> y)"
      let ?r = "argmin_from best besti (Suc i) xs"
      have "(x # xs) ! (?r - i) = xs ! (?r - Suc i)"
        using a by (simp add: nth_Cons')
      then show ?thesis using a False by auto
    qed
  qed
qed

lemma argmin_spec:
  assumes "ds \<noteq> []"
  shows "\<exists>a. argmin ds = Inr a \<and> a < length ds \<and> (\<forall>x\<in>set ds. ds ! a \<le> x)"
proof -
  obtain d rest where ds: "ds = d # rest" using assms by (cases ds) auto
  let ?r = "argmin_from d 0 1 rest"
  from argmin_from_spec [of d 0 1 rest]
  have "?r < length ds \<and> (\<forall>x\<in>set ds. ds ! ?r \<le> x)"
  proof
    assume "?r = 0 \<and> d \<le> d \<and> (\<forall>x\<in>set rest. d \<le> x)"
    then show ?thesis by (simp add: ds)
  next
    assume a: "1 \<le> ?r \<and> ?r < 1 + length rest \<and> rest ! (?r - 1) \<le> d
       \<and> (\<forall>x\<in>set rest. rest ! (?r - 1) \<le> x)"
    then have "ds ! ?r = rest ! (?r - 1)" by (simp add: ds nth_Cons')
    then show ?thesis using a by (auto simp: ds)
  qed
  then show ?thesis by (simp add: argmin_def ds)
qed

section \<open>Properties of the update\<close>

lemma update_kb:
  "knowledge_base (fst (update_knowledge_base p st new_entries)) = knowledge_base st @ new_entries"
  by (simp add: update_knowledge_base_def encode_def Let_def)

lemma update_embeddings:
  "knowledge_embeddings (fst (update_knowledge_base p st new_entries)) =
     (if unavailable p (knowledge_base st @ new_entries) then knowledge_embeddings st
      else map (embed p) (knowledge_base st @ new_entries))"
  by (simp add: update_knowledge_base_def encode_def Let_def)

lemma update_outcome:
  "snd (update_knowledge_base p st new_entries) =
     (if unavailable p (knowledge_base st @ new_entries) then Inl ProviderError else Inr ())"
  by (simp add: update_knowledge_base_def encode_def Let_def)

lemma run_updates_snoc:
  "run_updates st (calls @ [(p, new_entries)]) =
     fst (update_knowledge_base p (run_updates st calls) new_entries)"
  by (induction st calls rule: run_updates.induct) simp_all

lemma run_updates_le:
  "length (knowledge_embeddings st) \<le> length (knowledge_base st) \<Longrightarrow>
   length (knowledge_embeddings (run_updates st calls)) \<le> length (knowledge_base (run_updates st calls))"
proof (induction st calls rule: run_updates.induct)
  case (1 st)
  then show ?case by simp
next
  case (2 st p new_entries calls)
  have "length (knowledge_embeddings (fst (update_knowledge_base p st new_entries)))
          \<le> length (knowledge_base (fst (update_knowledge_base p st new_entries)))"
    using "2.prems" by (simp add: update_kb update_embeddings)
  then show ?case using "2.IH" by simp
qed

lemma init_state_lengths:
  "init_state p = Inr st \<Longrightarrow> length (knowledge_embeddings st) = length (knowledge_base st)"
  by (auto simp: init_state_def encode_def split: if_splits)

text \<open>
  C1, as the code has it. When the embedding call of \<^verbatim>\<open>update_knowledge_base\<close> raises,
  the embeddings (and so their count) are what they were before the call, but the entry
  list has already been extended: it is the old list followed by the new texts, so the
  entry count has grown by the number of new texts. The queue is untouched.
\<close>

theorem update_failure_keeps_embeddings_only:
  assumes "snd (update_knowledge_base p st new_entries) = Inl e"
  shows "knowledge_embeddings (fst (update_knowledge_base p st new_entries)) = knowledge_embeddings st
       \<and> knowledge_base (fst (update_knowledge_base p st new_entries)) = knowledge_base st @ new_entries
       \<and> length (knowledge_base (fst (update_knowledge_base p st new_entries)))
           = length (knowledge_base st) + length new_entries
       \<and> uncertain_queries (fst (update_knowledge_base p st new_entries)) = uncertain_queries st"
  using assms
  by (simp add: update_knowledge_base_def encode_def Let_def split: if_splits)

theorem update_failure_keeps_embeddings_only_witness:
  "snd (update_knowledge_base down_provider small_state [''b'', ''c'']) = Inl ProviderError
   \<and> knowledge_embeddings (fst (update_knowledge_base down_provider small_state [''b'', ''c''])) = [[1, 1]]
   \<and> knowledge_base (fst (update_knowledge_base down_provider small_state [''b'', ''c''])) = [''a'', ''b'', ''c'']"
proof -
  have h: "snd (update_knowledge_base down_provider small_state [''b'', ''c'']) = Inl ProviderError"
    by (simp add: update_outcome down_provider_def)
  show ?thesis
    using h update_failure_keeps_embeddings_only [OF h]
    by (simp add: small_state_def)
qed

text \<open>
  The claim C1 as stated fails: the provider raises during an append of one text to an
  index of one entry, and the entry count after the call is 2, not 1.
\<close>

theorem update_not_all_or_nothing:
  "snd (update_knowledge_base down_provider small_state [''b'']) = Inl ProviderError
   \<and> length (knowledge_base small_state) = 1
   \<and> length (knowledge_embeddings small_state) = 1
   \<and> length (knowledge_base (fst (update_knowledge_base down_provider small_state [''b'']))) = 2
   \<and> length (knowledge_embeddings (fst (update_knowledge_base down_provider small_state [''b'']))) = 1"
  by (simp add: update_knowledge_base_def encode_def down_provider_def small_state_def)

text \<open>
  C3, as the code has it. Starting from the initial index, after every sequence of
  \<^verbatim>\<open>update_knowledge_base\<close> calls there are never more embeddings than entries, and
  whenever the last call returned normally (its embedding call did not raise) there are
  exactly as many embeddings as entries.
\<close>

theorem updates_pairing_after_success:
  assumes "init_state p0 = Inr st0"
  shows "length (knowledge_embeddings (run_updates st0 calls))
           \<le> length (knowledge_base (run_updates st0 calls))
       \<and> (\<forall>before p new_entries.
            calls = before @ [(p, new_entries)]
            \<and> snd (update_knowledge_base p (run_updates st0 before) new_entries) = Inr ()
            \<longrightarrow> length (knowledge_embeddings (run_updates st0 calls))
                  = length (knowledge_base (run_updates st0 calls)))"
proof -
  have le: "length (knowledge_embeddings st0) \<le> length (knowledge_base st0)"
    using init_state_lengths [OF assms] by simp
  have a: "length (knowledge_embeddings (run_updates st0 calls))
             \<le> length (knowledge_base (run_updates st0 calls))"
    by (rule run_updates_le [OF le])
  have b: "length (knowledge_embeddings (run_updates st0 calls))
             = length (knowledge_base (run_updates st0 calls))"
    if c: "calls = before @ [(p, new_entries)]"
      and ok: "snd (update_knowledge_base p (run_updates st0 before) new_entries) = Inr ()"
    for before p new_entries
  proof -
    have "\<not> unavailable p (knowledge_base (run_updates st0 before) @ new_entries)"
      using ok by (simp add: update_outcome split: if_splits)
    then show ?thesis
      by (simp add: c run_updates_snoc update_kb update_embeddings)
  qed
  show ?thesis using a b by blast
qed

theorem updates_pairing_after_success_witness:
  "init_state up_provider = Inr initial_state
   \<and> snd (update_knowledge_base up_provider
             (run_updates initial_state [(down_provider, [''x''])]) [''y'']) = Inr ()
   \<and> length (knowledge_embeddings
        (run_updates initial_state [(down_provider, [''x'']), (up_provider, [''y''])])) = 7
   \<and> length (knowledge_base
        (run_updates initial_state [(down_provider, [''x'']), (up_provider, [''y''])])) = 7"
proof -
  have i: "init_state up_provider = Inr initial_state"
    by (simp add: init_state_def encode_def up_provider_def initial_state_def)
  have ok: "snd (update_knowledge_base up_provider
             (run_updates initial_state [(down_provider, [''x''])]) [''y'']) = Inr ()"
    by (simp add: update_outcome up_provider_def)
  have kb: "length (knowledge_base
        (run_updates initial_state [(down_provider, [''x'']), (up_provider, [''y''])])) = 7"
    by (simp add: update_kb initial_state_def initial_knowledge_base_def)
  have "[(down_provider, [''x'']), (up_provider, [''y''])]
          = [(down_provider, [''x''])] @ [(up_provider, [''y''])]"
    by simp
  with updates_pairing_after_success [OF i, of "[(down_provider, [''x'']), (up_provider, [''y''])]"] ok
  have "length (knowledge_embeddings
        (run_updates initial_state [(down_provider, [''x'']), (up_provider, [''y''])]))
      = length (knowledge_base
        (run_updates initial_state [(down_provider, [''x'']), (up_provider, [''y''])]))"
    by blast
  with i ok kb show ?thesis by simp
qed

text \<open>
  The claim C3 as stated fails: from the initial index of five entries, one call in which
  the provider raises leaves six entries and five embeddings.
\<close>

theorem pairing_broken_after_failed_update:
  "init_state up_provider = Inr initial_state
   \<and> snd (update_knowledge_base down_provider initial_state [''New policy'']) = Inl ProviderError
   \<and> length (knowledge_base (run_updates initial_state [(down_provider, [''New policy''])])) = 6
   \<and> length (knowledge_embeddings (run_updates initial_state [(down_provider, [''New policy''])])) = 5"
  by (simp add: init_state_def encode_def up_provider_def down_provider_def initial_state_def
      update_knowledge_base_def initial_knowledge_base_def)

section \<open>Properties of retrieval\<close>

text \<open>
  When the embeddings can be compared with the query, the row that line 217 takes from
  \<^verbatim>\<open>cosine_similarity\<close> holds the cosine similarities of the specification.
\<close>

lemma rows_same_length: "check_array X \<Longrightarrow> y \<in> set X \<Longrightarrow> length y = n_features X"
  by (auto simp: check_array_def n_features_def list_all_iff split: list.splits)

lemma query_row_length:
  assumes "embeddings_ready p st query" "y \<in> set (knowledge_embeddings st)"
  shows "length (embed p query) = length y"
proof -
  have "check_array (knowledge_embeddings st)"
    and "length (embed p query) = n_features (knowledge_embeddings st)"
    using assms(1) by (simp_all add: embeddings_ready_def)
  then show ?thesis using rows_same_length [OF _ assms(2)] by simp
qed

lemma similarities_of_code:
  assumes "embeddings_ready p st query"
  shows "map (\<lambda>y. dot (normalize (embed p query)) (normalize y)) (knowledge_embeddings st)
           = similarities_of p st query"
  unfolding similarities_of_def
proof (rule map_cong)
  show "knowledge_embeddings st = knowledge_embeddings st" by (rule refl)
next
  fix y assume "y \<in> set (knowledge_embeddings st)"
  then have "length (embed p query) = length y" by (rule query_row_length [OF assms])
  then show "dot (normalize (embed p query)) (normalize y) = cosine_spec (embed p query) y"
    by (rule cosine_refines)
qed

lemma query_similarities_ready:
  assumes "embeddings_ready p st query"
  shows "query_similarities p st query = Inr (similarities_of p st query)"
proof -
  have q: "encode p [query] = Inr [embed p query]"
    using assms by (simp add: embeddings_ready_def encode_def)
  have pos: "0 < length (embed p query)"
    using assms check_array_n_features by (simp add: embeddings_ready_def)
  then have cq: "check_array [embed p query]" by (simp add: check_array_def)
  have nf: "n_features [embed p query] = n_features (knowledge_embeddings st)"
    using assms by (simp add: embeddings_ready_def n_features_def)
  have ce: "check_array (knowledge_embeddings st)"
    using assms by (simp add: embeddings_ready_def)
  show ?thesis
    by (simp add: query_similarities_def q cosine_similarity_def cq ce nf getitem_def
        similarities_of_code [OF assms])
qed

lemma similarities_of_length: "length (similarities_of p st query) = length (knowledge_embeddings st)"
  by (simp add: similarities_of_def)

lemma similarities_of_nth:
  "i < length (knowledge_embeddings st) \<Longrightarrow>
   similarities_of p st query ! i = cosine_spec (embed p query) (knowledge_embeddings st ! i)"
  by (simp add: similarities_of_def)

lemma retrieve_ready:
  assumes "index_ready argsort p st query"
  shows "retrieve_relevant_context argsort p st query top_k =
           Inr (map ((!) (knowledge_base st)) (ranking argsort p st query top_k))"
proof -
  have er: "embeddings_ready p st query" and ok: "argsort_ok (similarities_of p st query)
      (argsort (similarities_of p st query))"
    using assms by (simp_all add: index_ready_def)
  have len: "length (similarities_of p st query) \<le> length (knowledge_base st)"
    using er by (simp add: embeddings_ready_def similarities_of_length)
  have "\<forall>i\<in>set (top_indices argsort (similarities_of p st query) top_k). i < length (knowledge_base st)"
    using top_indices_set [where a = "similarities_of p st query" and argsort = argsort, OF ok, of top_k]
      len by auto
  then show ?thesis
    by (simp add: retrieve_relevant_context_def retrieve_try_def ranking_def
        query_similarities_ready [OF er] collect_getitem)
qed

lemma retrieve_total: "\<exists>ctx. retrieve_relevant_context argsort p st query top_k = Inr ctx"
  by (simp add: retrieve_relevant_context_def split: sum.splits)

lemma collect_Inr_length: "collect f xs = Inr ys \<Longrightarrow> length ys = length xs"
  by (induction xs arbitrary: ys) (auto split: sum.splits)

lemma retrieve_length_le:
  assumes "0 < top_k" and "retrieve_relevant_context argsort p st query top_k = Inr ctx"
  shows "length ctx \<le> nat top_k"
proof (cases "retrieve_try argsort p st query top_k")
  case (Inl e)
  then show ?thesis using assms(2) by (auto simp: retrieve_relevant_context_def)
next
  case (Inr found)
  then have ctx: "ctx = found" using assms(2) by (simp add: retrieve_relevant_context_def)
  from Inr obtain sims where
    "collect (getitem (knowledge_base st)) (top_indices argsort sims top_k) = Inr found"
    by (auto simp: retrieve_try_def split: sum.splits)
  then have "length found = length (top_indices argsort sims top_k)"
    by (rule collect_Inr_length)
  then show ?thesis
    using top_indices_length_le [OF assms(1), of argsort sims] by (simp add: ctx)
qed

text \<open>Evaluations on the concrete inputs.\<close>

lemma tie_embeddings_ready: "embeddings_ready axis_provider tie_state ''q''"
  by (simp add: embeddings_ready_def axis_provider_def tie_state_def check_array_def n_features_def)

lemma tie_sims: "similarities_of axis_provider tie_state ''q'' = [1 / sqrt 2, 1 / sqrt 2]"
  unfolding similarities_of_code [OF tie_embeddings_ready, symmetric]
  by (simp add: axis_provider_def tie_state_def normalize_def l2norm_def dot_def Let_def)

lemma insertion_argsort_pair: "insertion_argsort [c, c] = [0, 1]"
  by (simp add: insertion_argsort_def upt_rec)

lemma descending_ties_argsort_pair: "descending_ties_argsort [c, c] = [1, 0]"
  by (simp add: descending_ties_argsort_def upt_rec)

lemma tie_top_insertion: "top_indices insertion_argsort [c, c] 2 = [1, 0]"
  by (simp add: top_indices_def insertion_argsort_pair slice_from_def)

lemma tie_top_descending: "top_indices descending_ties_argsort [c, c] 2 = [0, 1]"
  by (simp add: top_indices_def descending_ties_argsort_pair slice_from_def)

lemma tie_ready: "index_ready insertion_argsort axis_provider tie_state ''q''"
  by (simp add: index_ready_def tie_embeddings_ready insertion_argsort_ok)

lemma three_embeddings_ready: "embeddings_ready axis_provider three_entries ''What are your hours?''"
  by (simp add: embeddings_ready_def axis_provider_def three_entries_def check_array_def n_features_def)

lemma three_ready: "index_ready insertion_argsort axis_provider three_entries ''What are your hours?''"
  by (simp add: index_ready_def three_embeddings_ready insertion_argsort_ok)

lemma three_sims: "similarities_of axis_provider three_entries ''What are your hours?'' = [0, - 1, 1]"
  unfolding similarities_of_code [OF three_embeddings_ready, symmetric]
  by (simp add: axis_provider_def three_entries_def normalize_def l2norm_def dot_def Let_def)

lemma three_argsort: "insertion_argsort [0, - 1, 1] = [1, 0, 2]"
  by (simp add: insertion_argsort_def upt_rec)

lemma three_top2: "top_indices insertion_argsort [0, - 1, 1] 2 = [2, 0]"
  by (simp add: top_indices_def three_argsort slice_from_def)

lemma three_top0: "top_indices insertion_argsort [0, - 1, 1] 0 = [2, 0, 1]"
  by (simp add: top_indices_def three_argsort slice_from_def)

lemma small_retrieve:
  "retrieve_relevant_context insertion_argsort up_provider small_state ''q'' 2 = Inr [''a'']"
proof -
  have e: "embeddings_ready up_provider small_state ''q''"
    by (simp add: embeddings_ready_def up_provider_def small_state_def check_array_def n_features_def)
  have r: "index_ready insertion_argsort up_provider small_state ''q''"
    by (simp add: index_ready_def e insertion_argsort_ok)
  obtain c where c: "similarities_of up_provider small_state ''q'' = [c]"
    by (simp add: similarities_of_def small_state_def)
  have "top_indices insertion_argsort [c] 2 = [0]"
    by (simp add: top_indices_def insertion_argsort_def slice_from_def)
  then show ?thesis
    by (simp add: retrieve_ready [OF r] ranking_def c) (simp add: small_state_def)
qed

lemma unpaired_state_fields:
  "knowledge_base unpaired_state = initial_knowledge_base @ [''New policy'']"
  "knowledge_embeddings unpaired_state = map (embed up_provider) initial_knowledge_base"
  by (simp_all add: unpaired_state_def update_knowledge_base_def encode_def down_provider_def
      initial_state_def)

lemma unpaired_ready:
  "index_ready insertion_argsort up_provider unpaired_state ''What are your hours?''"
proof -
  have "embeddings_ready up_provider unpaired_state ''What are your hours?''"
    by (simp add: embeddings_ready_def unpaired_state_fields)
       (simp add: up_provider_def initial_knowledge_base_def check_array_def n_features_def)
  then show ?thesis by (simp add: index_ready_def insertion_argsort_ok)
qed

text \<open>
  C2, as the code has it. When the index answers the query, the result is the entries
  at the positions \<open>ranking\<close>; an entry is never ranked before one of strictly greater
  cosine similarity; and the entry ranked \<open>r\<close>-th is the \<open>r\<close>-th from the end of the
  order that \<^verbatim>\<open>argsort\<close> returned. The code has no tie-break of its own, and numpy
  fixes none: when \<^verbatim>\<open>argsort\<close> leaves equal values in ascending position, of two
  returned entries with equal similarity the one with the higher position comes first;
  when it leaves them in descending position, the one with the lower position comes
  first.
\<close>

theorem tie_order_left_to_argsort:
  "(index_ready argsort p st query \<longrightarrow>
      retrieve_relevant_context argsort p st query top_k
        = Inr (map ((!) (knowledge_base st)) (ranking argsort p st query top_k))
      \<and> (\<forall>a b. a < b \<and> b < length (ranking argsort p st query top_k)
            \<longrightarrow> similarities_of p st query ! (ranking argsort p st query top_k ! b)
                  \<le> similarities_of p st query ! (ranking argsort p st query top_k ! a))
      \<and> (\<forall>r<length (ranking argsort p st query top_k).
            ranking argsort p st query top_k ! r
              = argsort (similarities_of p st query)
                  ! (length (argsort (similarities_of p st query)) - 1 - r)))
   \<and> (embeddings_ready p st query \<longrightarrow>
      retrieve_relevant_context insertion_argsort p st query top_k
        = Inr (map ((!) (knowledge_base st)) (ranking insertion_argsort p st query top_k))
      \<and> (\<forall>a b. a < b \<and> b < length (ranking insertion_argsort p st query top_k)
              \<and> similarities_of p st query ! (ranking insertion_argsort p st query top_k ! a)
                = similarities_of p st query ! (ranking insertion_argsort p st query top_k ! b)
            \<longrightarrow> ranking insertion_argsort p st query top_k ! b
                  < ranking insertion_argsort p st query top_k ! a))
   \<and> (embeddings_ready p st query \<longrightarrow>
      retrieve_relevant_context descending_ties_argsort p st query top_k
        = Inr (map ((!) (knowledge_base st)) (ranking descending_ties_argsort p st query top_k))
      \<and> (\<forall>a b. a < b \<and> b < length (ranking descending_ties_argsort p st query top_k)
              \<and> similarities_of p st query ! (ranking descending_ties_argsort p st query top_k ! a)
                = similarities_of p st query ! (ranking descending_ties_argsort p st query top_k ! b)
            \<longrightarrow> ranking descending_ties_argsort p st query top_k ! a
                  < ranking descending_ties_argsort p st query top_k ! b))"
proof -
  let ?sims = "similarities_of p st query"
  have general: "retrieve_relevant_context argsort p st query top_k
        = Inr (map ((!) (knowledge_base st)) (ranking argsort p st query top_k))
      \<and> (\<forall>a b. a < b \<and> b < length (ranking argsort p st query top_k)
            \<longrightarrow> ?sims ! (ranking argsort p st query top_k ! b)
                  \<le> ?sims ! (ranking argsort p st query top_k ! a))
      \<and> (\<forall>r<length (ranking argsort p st query top_k).
            ranking argsort p st query top_k ! r
              = argsort ?sims ! (length (argsort ?sims) - 1 - r))"
    if ready: "index_ready argsort p st query"
  proof -
    have ok: "argsort_ok ?sims (argsort ?sims)" using ready by (simp add: index_ready_def)
    have desc: "sorted_wrt (\<lambda>i j. ?sims ! j \<le> ?sims ! i) (top_indices argsort ?sims top_k)"
      by (rule top_indices_descending [where a = ?sims and argsort = argsort, OF ok])
    have "?sims ! (top_indices argsort ?sims top_k ! b) \<le> ?sims ! (top_indices argsort ?sims top_k ! a)"
      if "a < b" "b < length (top_indices argsort ?sims top_k)" for a b
      using sorted_wrt_nth_less [OF desc that] .
    then show ?thesis
      using retrieve_ready [OF ready, of top_k] top_indices_nth [of _ argsort ?sims top_k]
      by (simp add: ranking_def)
  qed
  have ascending: "retrieve_relevant_context insertion_argsort p st query top_k
        = Inr (map ((!) (knowledge_base st)) (ranking insertion_argsort p st query top_k))
      \<and> (\<forall>a b. a < b \<and> b < length (ranking insertion_argsort p st query top_k)
              \<and> ?sims ! (ranking insertion_argsort p st query top_k ! a)
                = ?sims ! (ranking insertion_argsort p st query top_k ! b)
            \<longrightarrow> ranking insertion_argsort p st query top_k ! b
                  < ranking insertion_argsort p st query top_k ! a)"
    if er: "embeddings_ready p st query"
  proof -
    have ready: "index_ready insertion_argsort p st query"
      using er by (simp add: index_ready_def insertion_argsort_ok)
    let ?idx = "top_indices insertion_argsort ?sims top_k"
    have lex: "sorted_wrt (\<lambda>i j. ?sims ! j < ?sims ! i \<or> (?sims ! j = ?sims ! i \<and> j < i)) ?idx"
      by (rule top_indices_insertion_ties)
    have "?idx ! b < ?idx ! a"
      if "a < b" "b < length ?idx" "?sims ! (?idx ! a) = ?sims ! (?idx ! b)" for a b
      using sorted_wrt_nth_less [OF lex that(1) that(2)] that(3) by auto
    then show ?thesis
      using retrieve_ready [OF ready, of top_k] by (simp add: ranking_def)
  qed
  have descending: "retrieve_relevant_context descending_ties_argsort p st query top_k
        = Inr (map ((!) (knowledge_base st)) (ranking descending_ties_argsort p st query top_k))
      \<and> (\<forall>a b. a < b \<and> b < length (ranking descending_ties_argsort p st query top_k)
              \<and> ?sims ! (ranking descending_ties_argsort p st query top_k ! a)
                = ?sims ! (ranking descending_ties_argsort p st query top_k ! b)
            \<longrightarrow> ranking descending_ties_argsort p st query top_k ! a
                  < ranking descending_ties_argsort p st query top_k ! b)"
    if er: "embeddings_ready p st query"
  proof -
    have ready: "index_ready descending_ties_argsort p st query"
      using er by (simp add: index_ready_def descending_ties_argsort_ok)
    let ?idx = "top_indices descending_ties_argsort ?sims top_k"
    have lex: "sorted_wrt (\<lambda>i j. ?sims ! j < ?sims ! i \<or> (?sims ! j = ?sims ! i \<and> i < j)) ?idx"
      by (rule top_indices_descending_ties)
    have "?idx ! a < ?idx ! b"
      if "a < b" "b < length ?idx" "?sims ! (?idx ! a) = ?sims ! (?idx ! b)" for a b
      using sorted_wrt_nth_less [OF lex that(1) that(2)] that(3) by auto
    then show ?thesis
      using retrieve_ready [OF ready, of top_k] by (simp add: ranking_def)
  qed
  show ?thesis using general ascending descending by blast
qed

text \<open>
  The two tied entries of \<open>tie_state\<close> come out in either order, as \<^verbatim>\<open>argsort\<close> leaves
  them.
\<close>

theorem tie_order_left_to_argsort_witness:
  "index_ready insertion_argsort axis_provider tie_state ''q''
   \<and> embeddings_ready axis_provider tie_state ''q''
   \<and> similarities_of axis_provider tie_state ''q'' ! 0 = similarities_of axis_provider tie_state ''q'' ! 1
   \<and> ranking insertion_argsort axis_provider tie_state ''q'' 2 ! 1
        < ranking insertion_argsort axis_provider tie_state ''q'' 2 ! 0
   \<and> ranking descending_ties_argsort axis_provider tie_state ''q'' 2 ! 0
        < ranking descending_ties_argsort axis_provider tie_state ''q'' 2 ! 1
   \<and> retrieve_relevant_context descending_ties_argsort axis_provider tie_state ''q'' 2
        = Inr [''Store hours'', ''Refund policy'']"
proof -
  let ?sims = "similarities_of axis_provider tie_state ''q''"
  let ?up = "ranking insertion_argsort axis_provider tie_state ''q'' 2"
  let ?down = "ranking descending_ties_argsort axis_provider tie_state ''q'' 2"
  have up: "(0::nat) < 1 \<and> 1 < length ?up \<and> ?sims ! (?up ! 0) = ?sims ! (?up ! 1)"
    by (simp add: ranking_def tie_sims tie_top_insertion)
  have down: "(0::nat) < 1 \<and> 1 < length ?down \<and> ?sims ! (?down ! 0) = ?sims ! (?down ! 1)"
    by (simp add: ranking_def tie_sims tie_top_descending)
  have a: "?up ! 1 < ?up ! 0"
    using tie_order_left_to_argsort [of insertion_argsort axis_provider tie_state "''q''" 2]
      tie_embeddings_ready up by blast
  have b: "?down ! 0 < ?down ! 1"
    using tie_order_left_to_argsort [of insertion_argsort axis_provider tie_state "''q''" 2]
      tie_embeddings_ready down by blast
  have "retrieve_relevant_context descending_ties_argsort axis_provider tie_state ''q'' 2
        = Inr (map ((!) (knowledge_base tie_state)) ?down)"
    using tie_order_left_to_argsort [of insertion_argsort axis_provider tie_state "''q''" 2]
      tie_embeddings_ready by blast
  then have c: "retrieve_relevant_context descending_ties_argsort axis_provider tie_state ''q'' 2
        = Inr [''Store hours'', ''Refund policy'']"
    by (simp add: ranking_def tie_sims tie_top_descending) (simp add: tie_state_def)
  show ?thesis using tie_ready tie_embeddings_ready a b c by (simp add: tie_sims)
qed

text \<open>
  The claim C2 as stated fails. \<open>''Store hours''\<close> (position 0) and
  \<open>''Refund policy''\<close> (position 1) have the same similarity to the query; with the
  insertion sort of numpy, which leaves the two equal values in the order 0, 1, line 218
  returns the entry at position 1 first.
\<close>

theorem tie_returns_later_entry_first:
  "knowledge_base tie_state = [''Store hours'', ''Refund policy'']
   \<and> query_similarities axis_provider tie_state ''q'' = Inr [1 / sqrt 2, 1 / sqrt 2]
   \<and> insertion_argsort [1 / sqrt 2, 1 / sqrt 2] = [0, 1]
   \<and> retrieve_relevant_context insertion_argsort axis_provider tie_state ''q'' 2
        = Inr [''Refund policy'', ''Store hours'']"
proof -
  have "retrieve_relevant_context insertion_argsort axis_provider tie_state ''q'' 2
          = Inr [''Refund policy'', ''Store hours'']"
    by (simp add: retrieve_ready [OF tie_ready] ranking_def tie_sims tie_top_insertion)
       (simp add: tie_state_def)
  then show ?thesis
    by (simp add: query_similarities_ready [OF tie_embeddings_ready] tie_sims insertion_argsort_pair)
       (simp add: tie_state_def)
qed

text \<open>
  C6, as the code has it. For a positive \<open>top_k\<close> the result never has more than
  \<open>top_k\<close> entries. When the index answers the query (the provider responds, the
  embeddings are a non-empty matrix of the dimension of the query embedding, none without
  an entry) the result is the entries at the positions \<open>ranking\<close>: \<open>min top_k n\<close>
  distinct positions among the \<open>n\<close> embeddings, in order of non-increasing cosine
  similarity, and no embedded position left out has a greater similarity than one
  returned. When moreover every entry has its embedding and \<open>top_k\<close> is at least the
  number of entries, the result holds every stored entry.
\<close>

theorem retrieve_top_k_descending:
  assumes "0 < top_k"
  shows "(\<exists>ctx. retrieve_relevant_context argsort p st query top_k = Inr ctx
            \<and> length ctx \<le> nat top_k)
       \<and> (index_ready argsort p st query \<longrightarrow>
            retrieve_relevant_context argsort p st query top_k
              = Inr (map ((!) (knowledge_base st)) (ranking argsort p st query top_k))
          \<and> length (ranking argsort p st query top_k)
              = min (nat top_k) (length (knowledge_embeddings st))
          \<and> distinct (ranking argsort p st query top_k)
          \<and> (\<forall>i\<in>set (ranking argsort p st query top_k). i < length (knowledge_embeddings st))
          \<and> sorted_wrt (\<lambda>i j. cosine_spec (embed p query) (knowledge_embeddings st ! j)
                             \<le> cosine_spec (embed p query) (knowledge_embeddings st ! i))
               (ranking argsort p st query top_k)
          \<and> (\<forall>i\<in>set (ranking argsort p st query top_k).
               \<forall>j<length (knowledge_embeddings st).
                 j \<notin> set (ranking argsort p st query top_k)
                 \<longrightarrow> cosine_spec (embed p query) (knowledge_embeddings st ! j)
                       \<le> cosine_spec (embed p query) (knowledge_embeddings st ! i))
          \<and> (length (knowledge_base st) = length (knowledge_embeddings st)
               \<and> int (length (knowledge_base st)) \<le> top_k
               \<longrightarrow> mset (map ((!) (knowledge_base st)) (ranking argsort p st query top_k))
                     = mset (knowledge_base st)))"
proof -
  let ?sims = "similarities_of p st query"
  let ?idx = "ranking argsort p st query top_k"
  let ?kb = "knowledge_base st"
  let ?n = "length (knowledge_embeddings st)"
  let ?cos = "\<lambda>i. cosine_spec (embed p query) (knowledge_embeddings st ! i)"
  have len: "length ?sims = ?n" by (rule similarities_of_length)
  have c0: "\<exists>ctx. retrieve_relevant_context argsort p st query top_k = Inr ctx
              \<and> length ctx \<le> nat top_k"
    using retrieve_total [of argsort p st query top_k] retrieve_length_le [OF assms] by blast
  have rest: "retrieve_relevant_context argsort p st query top_k = Inr (map ((!) ?kb) ?idx)
          \<and> length ?idx = min (nat top_k) ?n
          \<and> distinct ?idx
          \<and> (\<forall>i\<in>set ?idx. i < ?n)
          \<and> sorted_wrt (\<lambda>i j. ?cos j \<le> ?cos i) ?idx
          \<and> (\<forall>i\<in>set ?idx. \<forall>j<?n. j \<notin> set ?idx \<longrightarrow> ?cos j \<le> ?cos i)
          \<and> (length ?kb = ?n \<and> int (length ?kb) \<le> top_k
               \<longrightarrow> mset (map ((!) ?kb) ?idx) = mset ?kb)"
    if ready: "index_ready argsort p st query"
  proof -
    have ok: "argsort_ok ?sims (argsort ?sims)" using ready by (simp add: index_ready_def)
    have c1: "retrieve_relevant_context argsort p st query top_k = Inr (map ((!) ?kb) ?idx)"
      by (rule retrieve_ready [OF ready])
    have c2: "length ?idx = min (nat top_k) ?n"
      using top_indices_length [where a = ?sims and argsort = argsort, OF assms ok]
      by (simp add: ranking_def len)
    have c3: "distinct ?idx"
      using top_indices_distinct [where a = ?sims and argsort = argsort, OF ok]
      by (simp add: ranking_def)
    have c4: "\<forall>i\<in>set ?idx. i < ?n"
      using top_indices_set [where a = ?sims and argsort = argsort, OF ok, of top_k] len
      by (auto simp: ranking_def)
    have "sorted_wrt (\<lambda>i j. ?sims ! j \<le> ?sims ! i) ?idx"
      using top_indices_descending [where a = ?sims and argsort = argsort, OF ok]
      by (simp add: ranking_def)
    then have c5: "sorted_wrt (\<lambda>i j. ?cos j \<le> ?cos i) ?idx"
      using c4 by (auto simp: sorted_wrt_iff_nth_less similarities_of_nth)
    have c6: "?cos j \<le> ?cos i" if "i \<in> set ?idx" "j < ?n" "j \<notin> set ?idx" for i j
    proof -
      have "?sims ! j \<le> ?sims ! i"
        using top_indices_best [where a = ?sims and argsort = argsort, OF ok, of i top_k j] that len
        by (simp add: ranking_def)
      then show ?thesis using that c4 by (simp add: similarities_of_nth)
    qed
    have c7: "mset (map ((!) ?kb) ?idx) = mset ?kb"
      if paired: "length ?kb = ?n" and all: "int (length ?kb) \<le> top_k"
    proof -
      have "mset ?idx = mset [0..<length ?kb]"
        using top_indices_everything [where a = ?sims and argsort = argsort, OF ok assms] all paired
        by (simp add: ranking_def len)
      then have "mset (map ((!) ?kb) ?idx) = mset (map ((!) ?kb) [0..<length ?kb])"
        by (metis mset_map)
      then show ?thesis by (simp add: map_nth)
    qed
    show ?thesis using c1 c2 c3 c4 c5 c6 c7 by blast
  qed
  show ?thesis using c0 rest by blast
qed

theorem retrieve_top_k_descending_witness:
  "index_ready insertion_argsort axis_provider three_entries ''What are your hours?''
   \<and> (0 :: int) < 2
   \<and> similarities_of axis_provider three_entries ''What are your hours?'' = [0, - 1, 1]
   \<and> retrieve_relevant_context insertion_argsort axis_provider three_entries ''What are your hours?'' 2
        = Inr [''Store hours'', ''Refund policy'']
   \<and> length (knowledge_base three_entries) = length (knowledge_embeddings three_entries)
   \<and> int (length (knowledge_base three_entries)) \<le> 5
   \<and> mset (map ((!) (knowledge_base three_entries))
        (ranking insertion_argsort axis_provider three_entries ''What are your hours?'' 5))
        = mset (knowledge_base three_entries)"
proof -
  have k2: "(0 :: int) < 2" and k5: "(0 :: int) < 5" by simp_all
  have n: "int (length (knowledge_base three_entries)) \<le> 5" by (simp add: three_entries_def)
  have m: "length (knowledge_base three_entries) = length (knowledge_embeddings three_entries)"
    by (simp add: three_entries_def)
  have "retrieve_relevant_context insertion_argsort axis_provider three_entries ''What are your hours?'' 2
        = Inr (map ((!) (knowledge_base three_entries))
            (ranking insertion_argsort axis_provider three_entries ''What are your hours?'' 2))"
    using retrieve_top_k_descending [OF k2] three_ready by blast
  then have r: "retrieve_relevant_context insertion_argsort axis_provider three_entries
        ''What are your hours?'' 2 = Inr [''Store hours'', ''Refund policy'']"
    by (simp add: ranking_def three_sims three_top2) (simp add: three_entries_def)
  have "mset (map ((!) (knowledge_base three_entries))
        (ranking insertion_argsort axis_provider three_entries ''What are your hours?'' 5))
        = mset (knowledge_base three_entries)"
    using retrieve_top_k_descending [OF k5] three_ready n m by blast
  then show ?thesis using three_ready r n m by (simp add: three_sims)
qed

text \<open>
  The claim C6 as stated fails. After one update of the initial index in which the
  provider raised there are six entries and five embeddings; the provider responds
  again, \<open>top_k = 10\<close> exceeds the entry count, and retrieval returns five entries, not
  all six.
\<close>

theorem unpaired_index_returns_fewer:
  "snd (update_knowledge_base down_provider initial_state [''New policy'']) = Inl ProviderError
   \<and> unpaired_state = fst (update_knowledge_base down_provider initial_state [''New policy''])
   \<and> length (knowledge_base unpaired_state) = 6
   \<and> length (knowledge_embeddings unpaired_state) = 5
   \<and> map_sum id length
        (retrieve_relevant_context insertion_argsort up_provider unpaired_state
           ''What are your hours?'' 10) = Inr 5"
proof -
  let ?sims = "similarities_of up_provider unpaired_state ''What are your hours?''"
  have ok: "argsort_ok ?sims (insertion_argsort ?sims)" by (rule insertion_argsort_ok)
  have n: "length ?sims = 5"
    by (simp add: similarities_of_length unpaired_state_fields initial_knowledge_base_def)
  have "length (top_indices insertion_argsort ?sims 10) = min (nat 10) (length ?sims)"
    using top_indices_length [where a = ?sims and argsort = insertion_argsort, OF _ ok] by simp
  then have five: "length (ranking insertion_argsort up_provider unpaired_state
      ''What are your hours?'' 10) = 5"
    by (simp add: ranking_def n)
  have a: "snd (update_knowledge_base down_provider initial_state [''New policy'']) = Inl ProviderError"
    by (simp add: update_outcome down_provider_def)
  have b: "length (knowledge_base unpaired_state) = 6"
    by (simp add: unpaired_state_fields initial_knowledge_base_def)
  have c: "length (knowledge_embeddings unpaired_state) = 5"
    by (simp add: unpaired_state_fields initial_knowledge_base_def)
  show ?thesis
    using a b c five by (simp add: retrieve_ready [OF unpaired_ready]) (simp add: unpaired_state_def)
qed

text \<open>
  C7. \<^verbatim>\<open>retrieve_relevant_context\<close> never raises: it always returns a list, and whenever
  a step of its \<^verbatim>\<open>try\<close> block raises it returns the empty list. That covers a provider
  that raises, an index without embeddings, embeddings of another dimension than the
  query embedding, and an index with a position that has no entry.
\<close>

theorem retrieve_never_raises:
  "(\<exists>ctx. retrieve_relevant_context argsort p st query top_k = Inr ctx)
   \<and> (\<forall>e. retrieve_try argsort p st query top_k = Inl e
          \<longrightarrow> retrieve_relevant_context argsort p st query top_k = Inr [])
   \<and> (unavailable p [query] \<longrightarrow> retrieve_relevant_context argsort p st query top_k = Inr [])
   \<and> (knowledge_embeddings st = [] \<longrightarrow> retrieve_relevant_context argsort p st query top_k = Inr [])
   \<and> (length (embed p query) \<noteq> n_features (knowledge_embeddings st)
          \<longrightarrow> retrieve_relevant_context argsort p st query top_k = Inr [])
   \<and> ((\<exists>sims. query_similarities p st query = Inr sims
           \<and> (\<exists>i\<in>set (top_indices argsort sims top_k). length (knowledge_base st) \<le> i))
          \<longrightarrow> retrieve_relevant_context argsort p st query top_k = Inr [])"
proof -
  have a: "\<exists>ctx. retrieve_relevant_context argsort p st query top_k = Inr ctx"
    by (rule retrieve_total)
  have b: "retrieve_relevant_context argsort p st query top_k = Inr []"
    if "retrieve_try argsort p st query top_k = Inl e" for e
    using that by (simp add: retrieve_relevant_context_def)
  have c: "retrieve_relevant_context argsort p st query top_k = Inr []" if "unavailable p [query]"
    using that
    by (simp add: retrieve_relevant_context_def retrieve_try_def query_similarities_def encode_def)
  have d: "retrieve_relevant_context argsort p st query top_k = Inr []"
    if "knowledge_embeddings st = []"
    using that
    by (simp add: retrieve_relevant_context_def retrieve_try_def query_similarities_def
        cosine_similarity_def check_array_def split: sum.splits)
  have e: "retrieve_relevant_context argsort p st query top_k = Inr []"
    if "length (embed p query) \<noteq> n_features (knowledge_embeddings st)"
    using that
    by (simp add: retrieve_relevant_context_def retrieve_try_def query_similarities_def
        cosine_similarity_def encode_def n_features_def split: sum.splits)
  have f: "retrieve_relevant_context argsort p st query top_k = Inr []"
    if sims: "query_similarities p st query = Inr sims"
      and bad: "\<exists>i\<in>set (top_indices argsort sims top_k). length (knowledge_base st) \<le> i" for sims
  proof -
    obtain i where "i \<in> set (top_indices argsort sims top_k)" "length (knowledge_base st) \<le> i"
      using bad by blast
    then have "collect (getitem (knowledge_base st)) (top_indices argsort sims top_k) = Inl IndexError"
      by (rule collect_getitem_out_of_range)
    then show ?thesis
      by (simp add: retrieve_relevant_context_def retrieve_try_def sims)
  qed
  show ?thesis using a b c d e f by blast
qed

theorem retrieve_never_raises_witness:
  "unavailable down_provider [''q'']
   \<and> retrieve_try insertion_argsort down_provider small_state ''q'' 2 = Inl ProviderError
   \<and> retrieve_relevant_context insertion_argsort down_provider small_state ''q'' 2 = Inr []
   \<and> knowledge_embeddings empty_state = []
   \<and> retrieve_try insertion_argsort axis_provider empty_state ''q'' 2 = Inl ValueError
   \<and> retrieve_relevant_context insertion_argsort axis_provider empty_state ''q'' 2 = Inr []
   \<and> length (embed axis_provider ''q'') \<noteq> n_features (knowledge_embeddings mismatch_state)
   \<and> retrieve_try insertion_argsort axis_provider mismatch_state ''q'' 2 = Inl ValueError
   \<and> retrieve_relevant_context insertion_argsort axis_provider mismatch_state ''q'' 2 = Inr []
   \<and> query_similarities axis_provider corrupted_state ''q'' = Inr [1 / sqrt 2, 1 / sqrt 2]
   \<and> retrieve_try insertion_argsort axis_provider corrupted_state ''q'' 2 = Inl IndexError
   \<and> retrieve_relevant_context insertion_argsort axis_provider corrupted_state ''q'' 2 = Inr []"
proof -
  have h1: "unavailable down_provider [''q'']" by (simp add: down_provider_def)
  have t1: "retrieve_try insertion_argsort down_provider small_state ''q'' 2 = Inl ProviderError"
    by (simp add: retrieve_try_def query_similarities_def encode_def down_provider_def)
  have h2: "knowledge_embeddings empty_state = []" by (simp add: empty_state_def)
  have t2: "retrieve_try insertion_argsort axis_provider empty_state ''q'' 2 = Inl ValueError"
    by (simp add: retrieve_try_def query_similarities_def encode_def axis_provider_def
        cosine_similarity_def check_array_def empty_state_def)
  have h3: "length (embed axis_provider ''q'') \<noteq> n_features (knowledge_embeddings mismatch_state)"
    by (simp add: axis_provider_def mismatch_state_def n_features_def)
  have t3: "retrieve_try insertion_argsort axis_provider mismatch_state ''q'' 2 = Inl ValueError"
    by (simp add: retrieve_try_def query_similarities_def encode_def axis_provider_def
        cosine_similarity_def check_array_def n_features_def mismatch_state_def)
  have s4: "query_similarities axis_provider corrupted_state ''q'' = Inr [1 / sqrt 2, 1 / sqrt 2]"
    by (simp add: query_similarities_def encode_def axis_provider_def corrupted_state_def
        cosine_similarity_def check_array_def n_features_def getitem_def normalize_def
        l2norm_def dot_def Let_def)
  have t4: "retrieve_try insertion_argsort axis_provider corrupted_state ''q'' 2 = Inl IndexError"
    by (simp add: retrieve_try_def s4 tie_top_insertion) (simp add: getitem_def corrupted_state_def)
  show ?thesis
    using h1 t1 h2 t2 h3 t3 s4 t4
      retrieve_never_raises [of insertion_argsort down_provider small_state "''q''" 2]
      retrieve_never_raises [of insertion_argsort axis_provider empty_state "''q''" 2]
      retrieve_never_raises [of insertion_argsort axis_provider mismatch_state "''q''" 2]
      retrieve_never_raises [of insertion_argsort axis_provider corrupted_state "''q''" 2]
    by simp
qed

section \<open>Properties of the curation pass\<close>

lemma cluster_indices_set:
  "set (cluster_indices labels i) = {j. j < length labels \<and> labels ! j = i}"
  by (auto simp: cluster_indices_def)

lemma representative_nonempty:
  assumes X: "check_array X"
    and lab: "length labels = length X"
    and q: "length queue = length X"
    and i: "i < length centers"
    and c: "length (centers ! i) = n_features X"
    and ne: "\<exists>j<length labels. labels ! j = i"
  shows "\<exists>r. representative queue X labels centers i = Inr (queue ! r)
           \<and> r < length queue \<and> labels ! r = i
           \<and> (\<forall>j<length queue. labels ! j = i \<longrightarrow>
                 l2norm (map2 (\<lambda>x y. x - y) (X ! r) (centers ! i))
                   \<le> l2norm (map2 (\<lambda>x y. x - y) (X ! j) (centers ! i)))"
proof -
  let ?ci = "cluster_indices labels i"
  let ?c = "centers ! i"
  let ?ds = "map (\<lambda>a. l2norm (sub_broadcast a ?c)) (map ((!) X) ?ci)"
  have ci_set: "set ?ci = {j. j < length labels \<and> labels ! j = i}"
    by (rule cluster_indices_set)
  have ci_ne: "?ci \<noteq> []" using ne ci_set by (metis (mono_tags, lifting) empty_iff empty_set mem_Collect_eq)
  have rows: "collect (getitem X) ?ci = Inr (map ((!) X) ?ci)"
    by (rule collect_getitem) (simp add: ci_set lab)
  have dist: "row_distances (n_features X) (map ((!) X) ?ci) ?c = Inr ?ds"
    by (simp add: row_distances_def c)
  have "?ds \<noteq> []" using ci_ne by simp
  then obtain a where a: "argmin ?ds = Inr a" "a < length ?ds" "\<forall>x\<in>set ?ds. ?ds ! a \<le> x"
    using argmin_spec by blast
  let ?r = "?ci ! a"
  have a_lt: "a < length ?ci" using a(2) by simp
  then have r_in: "?r \<in> set ?ci" by simp
  then have r_lt: "?r < length labels" and r_lab: "labels ! ?r = i"
    using ci_set by auto
  have sb: "sub_broadcast (X ! j) ?c = map2 (\<lambda>x y. x - y) (X ! j) ?c" if "j < length X" for j
    using check_array_rows [OF X that] c by (simp add: sub_broadcast_def)
  have val: "representative queue X labels centers i = Inr (queue ! ?r)"
    using i a(1) a_lt r_lt
    by (simp add: representative_def Let_def getitem_def rows dist lab q)
  have da: "?ds ! a = l2norm (map2 (\<lambda>x y. x - y) (X ! ?r) ?c)"
    using a_lt r_lt sb by (simp add: lab)
  have best: "l2norm (map2 (\<lambda>x y. x - y) (X ! ?r) ?c) \<le> l2norm (map2 (\<lambda>x y. x - y) (X ! j) ?c)"
    if "j < length queue" "labels ! j = i" for j
  proof -
    have "j \<in> set ?ci" using that ci_set by (simp add: q lab)
    then have "l2norm (sub_broadcast (X ! j) ?c) \<in> set ?ds" by simp
    then have "?ds ! a \<le> l2norm (sub_broadcast (X ! j) ?c)" using a(3) by blast
    then show ?thesis using da sb that(1) by (simp add: q)
  qed
  show ?thesis
    using val r_lt r_lab best by (intro exI [of _ ?r]) (simp add: lab q)
qed

lemma representative_empty_cluster:
  assumes i: "i < length centers"
    and c: "length (centers ! i) = n_features X"
    and e: "\<forall>j<length labels. labels ! j \<noteq> i"
  shows "representative queue X labels centers i = Inl ValueError"
proof -
  have "cluster_indices labels i = []"
    using e by (auto simp: cluster_indices_def filter_empty_conv)
  then show ?thesis
    using i c by (simp add: representative_def Let_def getitem_def row_distances_def argmin_def)
qed

lemma cluster_success_path:
  assumes n: "1 \<le> n_clusters" "n_clusters \<le> int (length (uncertain_queries st))"
    and up: "\<not> unavailable p (map fst (uncertain_queries st))"
    and X: "check_array (map (embed p) (map fst (uncertain_queries st)))"
  shows "snd (snd (cluster_uncertain_queries p km st n_clusters)) =
           collect (representative (uncertain_queries st) (map (embed p) (map fst (uncertain_queries st)))
                      (fst (km (nat n_clusters) (map (embed p) (map fst (uncertain_queries st)))))
                      (snd (km (nat n_clusters) (map (embed p) (map fst (uncertain_queries st))))))
             [0..<nat n_clusters]"
  using assms
  by (simp add: cluster_uncertain_queries_def encode_def KMeans_fit_def Let_def split: prod.splits)

lemma cluster_nonpositive:
  assumes "n_clusters \<le> 0"
  shows "\<exists>e. snd (snd (cluster_uncertain_queries p km st n_clusters)) = Inl e"
proof -
  have "\<not> int (length (uncertain_queries st)) < n_clusters" using assms by simp
  then show ?thesis using assms
    by (simp add: cluster_uncertain_queries_def KMeans_fit_def Let_def split: sum.splits)
qed

lemma cluster_state: "fst (cluster_uncertain_queries p km st n_clusters) = st"
  by (simp add: cluster_uncertain_queries_def Let_def split: sum.splits prod.splits)

text \<open>
  What the loop of lines 121-126 returns when the provider responds and the clustering
  gives every cluster at least one case: one case per cluster, in the order of the
  cluster numbers, each a member of its cluster at least as close to the centre of the
  cluster as every other member.
\<close>

theorem cluster_representatives_when_nonempty:
  assumes n: "1 \<le> n_clusters" "n_clusters \<le> int (length (uncertain_queries st))"
    and up: "\<not> unavailable p (map fst (uncertain_queries st))"
    and X: "check_array (map (embed p) (map fst (uncertain_queries st)))"
    and km: "km (nat n_clusters) (map (embed p) (map fst (uncertain_queries st))) = (labels, centers)"
    and ok: "kmeans_result_ok (nat n_clusters) (map (embed p) (map fst (uncertain_queries st))) (labels, centers)"
    and ne: "\<forall>i<nat n_clusters. \<exists>j<length labels. labels ! j = i"
  shows "\<exists>reps. snd (snd (cluster_uncertain_queries p km st n_clusters)) = Inr reps
           \<and> length reps = nat n_clusters
           \<and> (\<forall>i<nat n_clusters. \<exists>r<length (uncertain_queries st).
                 reps ! i = uncertain_queries st ! r \<and> labels ! r = i
                 \<and> (\<forall>j<length (uncertain_queries st). labels ! j = i \<longrightarrow>
                       l2norm (map2 (\<lambda>x y. x - y) (embed p (fst (uncertain_queries st ! r))) (centers ! i))
                         \<le> l2norm (map2 (\<lambda>x y. x - y) (embed p (fst (uncertain_queries st ! j))) (centers ! i))))"
proof -
  let ?uq = "uncertain_queries st"
  let ?X = "map (embed p) (map fst ?uq)"
  let ?P = "\<lambda>i y. \<exists>r<length ?uq. y = ?uq ! r \<and> labels ! r = i
                 \<and> (\<forall>j<length ?uq. labels ! j = i \<longrightarrow>
                       l2norm (map2 (\<lambda>x y. x - y) (embed p (fst (?uq ! r))) (centers ! i))
                         \<le> l2norm (map2 (\<lambda>x y. x - y) (embed p (fst (?uq ! j))) (centers ! i)))"
  have lab: "length labels = length ?X" and cen: "length centers = nat n_clusters"
    and dims: "\<forall>i<length centers. length (centers ! i) = n_features ?X"
    using ok by (simp_all add: kmeans_result_ok_def list_all_length)
  have each: "\<exists>y. representative ?uq ?X labels centers i = Inr y \<and> ?P i y"
    if "i \<in> set [0..<nat n_clusters]" for i
  proof -
    have i: "i < nat n_clusters" using that by simp
    then have ic: "i < length centers" by (simp add: cen)
    have nei: "\<exists>j<length labels. labels ! j = i" using ne i by blast
    have qlen: "length ?uq = length ?X" by simp
    have ci: "length (centers ! i) = n_features ?X" using dims ic by blast
    from representative_nonempty [OF X lab qlen ic ci nei]
    obtain r where r: "representative ?uq ?X labels centers i = Inr (?uq ! r)"
        "r < length ?uq" "labels ! r = i"
        "\<forall>j<length ?uq. labels ! j = i \<longrightarrow>
              l2norm (map2 (\<lambda>x y. x - y) (?X ! r) (centers ! i))
                \<le> l2norm (map2 (\<lambda>x y. x - y) (?X ! j) (centers ! i))"
      by blast
    have "?P i (?uq ! r)"
      using r(2) r(3) r(4) by (intro exI [of _ r]) simp
    then show ?thesis using r(1) by blast
  qed
  from collect_Inr_pointwise [of "[0..<nat n_clusters]" "representative ?uq ?X labels centers" ?P] each
  obtain reps where reps: "collect (representative ?uq ?X labels centers) [0..<nat n_clusters] = Inr reps"
      "length reps = length [0..<nat n_clusters]"
      "\<forall>k<length [0..<nat n_clusters]. ?P ([0..<nat n_clusters] ! k) (reps ! k)"
    by blast
  have res: "snd (snd (cluster_uncertain_queries p km st n_clusters)) = Inr reps"
    using cluster_success_path [OF n up X, of km] km reps(1) by simp
  have "\<forall>i<nat n_clusters. ?P i (reps ! i)" using reps(3) by simp
  then show ?thesis using res reps(2) by (intro exI [of _ reps]) simp
qed

lemma two_X: "map (embed up_provider) (map fst (uncertain_queries two_cases)) = [[2, 1], [4, 1]]"
  by (simp add: two_cases_def up_provider_def)

text \<open>Two queued cases, two clusters, one case in each.\<close>

lemma cluster_representatives_when_nonempty_witness:
  "\<exists>reps. snd (snd (cluster_uncertain_queries up_provider identity_clusters two_cases 2)) = Inr reps
      \<and> length reps = 2
      \<and> reps ! 0 = (''aa'', ''x'') \<and> reps ! 1 = (''bbbb'', ''y'')"
proof -
  let ?uq = "uncertain_queries two_cases"
  let ?X = "map (embed up_provider) (map fst ?uq)"
  have h1: "(1::int) \<le> 2" by simp
  have h2: "2 \<le> int (length ?uq)" by (simp add: two_cases_def)
  have h3: "\<not> unavailable up_provider (map fst ?uq)" by (simp add: up_provider_def)
  have h4: "check_array ?X" unfolding two_X by (simp add: check_array_def)
  have h5: "identity_clusters (nat 2) ?X = ([0, 1], [[2, 1], [4, 1]])"
    unfolding two_X by (simp add: identity_clusters_def upt_rec)
  have h6: "kmeans_result_ok (nat 2) ?X ([0, 1], [[2, 1], [4, 1]])"
    unfolding two_X by (simp add: kmeans_result_ok_def n_features_def)
  have h7: "\<forall>i<nat 2. \<exists>j<length [0, 1 :: nat]. [0, 1 :: nat] ! j = i"
  proof (intro allI impI)
    fix i :: nat assume "i < nat 2"
    then have "i = 0 \<or> i = 1" by auto
    then show "\<exists>j<length [0, 1 :: nat]. [0, 1 :: nat] ! j = i"
    proof
      assume "i = 0" then show ?thesis by (intro exI [of _ 0]) simp
    next
      assume "i = 1" then show ?thesis by (intro exI [of _ 1]) simp
    qed
  qed
  from cluster_representatives_when_nonempty
      [of 2 two_cases up_provider identity_clusters "[0, 1]" "[[2, 1], [4, 1]]", OF h1 h2 h3 h4 h5 h6 h7]
  obtain reps where reps:
    "snd (snd (cluster_uncertain_queries up_provider identity_clusters two_cases 2)) = Inr reps"
    "length reps = nat 2"
    "\<forall>i<nat 2. \<exists>r<length ?uq. reps ! i = ?uq ! r \<and> [0, 1 :: nat] ! r = i"
    by blast
  have r2: "r = 0 \<or> r = 1" if "r < length ?uq" for r
    using that by (auto simp: two_cases_def)
  have "reps ! 0 = ?uq ! 0"
    using reps(3) r2 by (metis nth_Cons_0 nth_Cons_Suc One_nat_def zero_neq_one nat_2 zero_less_Suc)
  moreover have "reps ! 1 = ?uq ! 1"
    using reps(3) r2 by (metis nth_Cons_0 One_nat_def zero_neq_one nat_2 lessI)
  ultimately show ?thesis
    using reps(1) reps(2) by (intro exI [of _ reps]) (simp add: two_cases_def)
qed

text \<open>
  When the clustering puts every case into one cluster and two or more clusters are
  asked for, some cluster has no member and the pass raises.
\<close>

lemma cluster_raises_when_all_in_one_cluster:
  assumes n: "2 \<le> n_clusters" "n_clusters \<le> int (length (uncertain_queries st))"
    and up: "\<not> unavailable p (map fst (uncertain_queries st))"
    and X: "check_array (map (embed p) (map fst (uncertain_queries st)))"
    and km: "km (nat n_clusters) (map (embed p) (map fst (uncertain_queries st))) = (labels, centers)"
    and ok: "kmeans_result_ok (nat n_clusters) (map (embed p) (map fst (uncertain_queries st))) (labels, centers)"
    and same: "\<forall>j<length labels. labels ! j = l"
  shows "\<exists>e. snd (snd (cluster_uncertain_queries p km st n_clusters)) = Inl e"
proof -
  let ?uq = "uncertain_queries st"
  let ?X = "map (embed p) (map fst ?uq)"
  let ?f = "representative ?uq ?X labels centers"
  define i where "i = (if l = 0 then 1 else 0 :: nat)"
  have i: "i < nat n_clusters" "i \<noteq> l" using n(1) by (auto simp: i_def)
  have cen: "length centers = nat n_clusters"
    and dims: "\<forall>i<length centers. length (centers ! i) = n_features ?X"
    using ok by (simp_all add: kmeans_result_ok_def list_all_length)
  have "\<forall>j<length labels. labels ! j \<noteq> i" using same i(2) by auto
  then have fi: "?f i = Inl ValueError"
    using i(1) cen dims by (intro representative_empty_cluster) auto
  have "\<exists>e. collect ?f xs = Inl e" if "i \<in> set xs" for xs
    using that fi by (induction xs) (auto split: sum.splits)
  then have "\<exists>e. collect ?f [0..<nat n_clusters] = Inl e" using i(1) by simp
  moreover have "1 \<le> n_clusters" using n(1) by simp
  ultimately show ?thesis
    using cluster_success_path [OF _ n(2) up X, of km] km by simp
qed

lemma dup_embeddings:
  "map (embed up_provider) (map fst (uncertain_queries duplicate_cases)) = replicate 5 [18, 1]"
  by (simp add: duplicate_cases_def up_provider_def numeral_eq_Suc)

lemma dup_len: "length (uncertain_queries duplicate_cases) = 5"
  by (simp add: duplicate_cases_def)

text \<open>
  C4 fails on the code. Five queued cases with the same query text and the default five
  clusters: the provider responds, the clustering finds one cluster, the loop reaches
  cluster 1, which has no member, and \<^verbatim>\<open>np.argmin\<close> raises on the empty array of
  distances. The pass raises \<open>ValueError\<close> where five representatives were promised.
\<close>

theorem duplicate_queries_raise:
  "snd (snd (cluster_uncertain_queries up_provider one_cluster duplicate_cases 5)) = Inl ValueError"
proof -
  let ?uq = "uncertain_queries duplicate_cases"
  let ?X = "replicate 5 [18, 1 :: real]"
  let ?labels = "replicate (5::nat) (0::nat)"
  let ?centers = "replicate (5::nat) [18, 1 :: real]"
  have X: "check_array ?X" by (rule check_array_replicate) simp_all
  have nf: "n_features ?X = 2" by (simp add: n_features_def numeral_eq_Suc)
  have km: "one_cluster (nat 5) ?X = (?labels, ?centers)"
    by (simp add: one_cluster_def)
  have emb: "map (embed up_provider) (map fst ?uq) = ?X" by (rule dup_embeddings)
  have h1: "(1::int) \<le> 5" by simp
  have h2: "5 \<le> int (length ?uq)" by (simp add: dup_len)
  have h3: "\<not> unavailable up_provider (map fst ?uq)" by (simp add: up_provider_def)
  have h4: "check_array (map (embed up_provider) (map fst ?uq))" unfolding emb by (rule X)
  have path: "snd (snd (cluster_uncertain_queries up_provider one_cluster duplicate_cases 5))
      = collect (representative ?uq ?X ?labels ?centers) [0..<nat 5]"
    using cluster_success_path [OF h1 h2 h3 h4, of one_cluster, unfolded emb km]
    by (simp only: fst_conv snd_conv)
  have ne0: "\<exists>j<length ?labels. ?labels ! j = 0" by (intro exI [of _ 0]) simp
  have "\<exists>r. representative ?uq ?X ?labels ?centers 0 = Inr (?uq ! r)"
    using representative_nonempty [of ?X ?labels ?uq 0 ?centers, OF X _ _ _ _ ne0]
    by (simp add: dup_len nf) blast
  then obtain r where r0: "representative ?uq ?X ?labels ?centers 0 = Inr (?uq ! r)" ..
  have r1: "representative ?uq ?X ?labels ?centers 1 = Inl ValueError"
    by (rule representative_empty_cluster) (simp_all add: nf)
  have c0: "collect (representative ?uq ?X ?labels ?centers) [0] = Inr [?uq ! r]"
    using r0 by simp
  have split: "[0..<nat 5] = [0] @ 1 # [2, 3, 4]" by (simp add: upt_rec)
  have "collect (representative ?uq ?X ?labels ?centers) ([0] @ 1 # [2, 3, 4]) = Inl ValueError"
    using c0 r1 by (rule collect_first_failure)
  then have "collect (representative ?uq ?X ?labels ?centers) [0..<nat 5] = Inl ValueError"
    by (simp only: split)
  then show ?thesis using path by simp
qed

text \<open>
  C5. When fewer cases are queued than clusters are asked for, the pass returns the
  queue itself, all cases in their order; it makes no call to the embedding provider or
  to the clustering routine (whatever these would have done), does not raise, and leaves
  the state as it was.
\<close>

theorem cluster_short_circuit:
  assumes "int (length (uncertain_queries st)) < n_clusters"
  shows "cluster_uncertain_queries p km st n_clusters = (st, [], Inr (uncertain_queries st))"
  using assms by (simp add: cluster_uncertain_queries_def)

theorem cluster_short_circuit_witness:
  "int (length (uncertain_queries three_cases)) < 5
   \<and> cluster_uncertain_queries down_provider one_cluster three_cases 5
       = (three_cases, [], Inr [(''q1'', ''a1''), (''q2'', ''a2''), (''q3'', ''a3'')])"
proof -
  have h: "int (length (uncertain_queries three_cases)) < 5" by (simp add: three_cases_def)
  show ?thesis
    using h cluster_short_circuit [OF h, of down_provider one_cluster]
    by (simp add: three_cases_def)
qed

text \<open>
  C8, as the code has it. For a non-positive \<^verbatim>\<open>n_clusters\<close> the curation pass raises
  (the clustering routine rejects the number, unless the embedding call raised before).
  Retrieval does not fail fast on a non-positive \<open>top_k\<close>: it returns a list and does
  not raise.
\<close>

theorem nonpositive_arguments:
  "(top_k \<le> 0 \<longrightarrow>
      (\<exists>ctx. retrieve_relevant_context argsort p st query top_k = Inr ctx))
   \<and> (n_clusters \<le> 0 \<longrightarrow>
        (\<exists>e. snd (snd (cluster_uncertain_queries p' km st' n_clusters)) = Inl e))"
  using retrieve_total [of argsort p st query top_k] cluster_nonpositive [of n_clusters p' km st']
  by blast

theorem nonpositive_arguments_witness:
  "(- 1 :: int) \<le> 0
   \<and> (\<exists>ctx. retrieve_relevant_context insertion_argsort axis_provider three_entries
          ''What are your hours?'' (- 1) = Inr ctx)
   \<and> (0 :: int) \<le> 0
   \<and> (\<exists>e. snd (snd (cluster_uncertain_queries up_provider one_cluster three_cases 0)) = Inl e)"
  using nonpositive_arguments [of "- 1" insertion_argsort axis_provider three_entries
      "''What are your hours?''" 0 up_provider one_cluster three_cases]
  by simp

text \<open>
  The claim C8 as stated fails: with \<open>top_k = 0\<close> retrieval does not fail; it completes
  and returns three entries.
\<close>

theorem top_k_zero_returns_everything:
  "(0 :: int) \<le> 0
   \<and> retrieve_relevant_context insertion_argsort axis_provider three_entries
        ''What are your hours?'' 0
        = Inr [''Store hours'', ''Refund policy'', ''Warranty'']"
  by (simp add: retrieve_ready [OF three_ready] ranking_def three_sims three_top0)
     (simp add: three_entries_def)

text \<open>
  C10. A curation pass leaves the state, and with it the queue, exactly as it was,
  whatever its outcome; a second pass with the same collaborators therefore sees the
  same cases and has the same outcome.
\<close>

theorem cluster_leaves_queue:
  "fst (cluster_uncertain_queries p km st n_clusters) = st
   \<and> uncertain_queries (fst (cluster_uncertain_queries p km st n_clusters)) = uncertain_queries st
   \<and> cluster_uncertain_queries p km (fst (cluster_uncertain_queries p km st n_clusters)) n_clusters
       = cluster_uncertain_queries p km st n_clusters"
  by (simp add: cluster_state)

section \<open>Properties of answering a query\<close>

lemma generate_response_queue:
  assumes "retrieve_relevant_context argsort p st query 2 = Inr ctx"
    and "chat_completion ev (''Context: '' @ join_space ctx @ [CHR 0x0A, CHR 0x0A] @ ''Question: '' @ query)
           = Inr message"
    and "analyze_sentiment_and_personalize ev query (strip message) = Inr (pr, s)"
  shows "fst (generate_response argsort p ev st query) =
           (if evaluate_certainty query (strip message) then st
            else add_uncertain_query st query (strip message))"
  using assms
  by (simp add: generate_response_def Let_def split: sum.splits)

lemma strip_short: "strip '' Yes. '' = ''Yes.''"
  by (simp add: strip_def isspace_def)

lemma fixed_env_neutral:
  "analyze_sentiment_and_personalize (fixed_env a) query r = Inr (r, ''NEUTRAL'')"
  by (simp add: analyze_sentiment_and_personalize_def fixed_env_def)

text \<open>
  C9. When a query has been answered (the completion call and the personalisation
  returned), the pair of the query and the stripped answer is appended to the queue of
  uncertain queries if and only if \<^verbatim>\<open>evaluate_certainty\<close> is false, that is, if and only
  if the answer has at most 50 characters; for a longer answer the state is unchanged.
\<close>

theorem uncertain_recorded_iff_short:
  assumes "retrieve_relevant_context argsort p st query 2 = Inr ctx"
    and "chat_completion ev (''Context: '' @ join_space ctx @ [CHR 0x0A, CHR 0x0A] @ ''Question: '' @ query)
           = Inr message"
    and "analyze_sentiment_and_personalize ev query (strip message) = Inr (pr, s)"
  shows "(evaluate_certainty query (strip message) \<longleftrightarrow> 50 < length (strip message))
       \<and> (length (strip message) \<le> 50 \<longrightarrow>
            fst (generate_response argsort p ev st query) = add_uncertain_query st query (strip message)
            \<and> uncertain_queries (fst (generate_response argsort p ev st query))
                = uncertain_queries st @ [(query, strip message)])
       \<and> (50 < length (strip message) \<longrightarrow> fst (generate_response argsort p ev st query) = st)"
  using generate_response_queue [OF assms]
  by (simp add: evaluate_certainty_def add_uncertain_query_def)

theorem uncertain_recorded_iff_short_witness:
  "retrieve_relevant_context insertion_argsort up_provider small_state ''q'' 2 = Inr [''a'']
   \<and> length (strip '' Yes. '') \<le> 50
   \<and> uncertain_queries (fst (generate_response insertion_argsort up_provider (fixed_env '' Yes. '') small_state ''q''))
        = [(''q'', ''Yes.'')]
   \<and> 50 < length (strip ''Our store hours are 9 AM to 5 PM, Monday to Friday.'')
   \<and> fst (generate_response insertion_argsort up_provider
             (fixed_env ''Our store hours are 9 AM to 5 PM, Monday to Friday.'') small_state ''q'')
        = small_state"
proof -
  let ?long = "''Our store hours are 9 AM to 5 PM, Monday to Friday.''"
  have c: "chat_completion (fixed_env m)
        (''Context: '' @ join_space [''a''] @ [CHR 0x0A, CHR 0x0A] @ ''Question: '' @ ''q'') = Inr m" for m
    by (simp add: fixed_env_def)
  have a: "analyze_sentiment_and_personalize (fixed_env m) ''q'' (strip m) = Inr (strip m, ''NEUTRAL'')" for m
    by (rule fixed_env_neutral)
  have s: "length (strip '' Yes. '') \<le> 50" by (simp add: strip_short)
  have l: "50 < length (strip ?long)" by (simp add: strip_def isspace_def)
  have "uncertain_queries (fst (generate_response insertion_argsort up_provider (fixed_env '' Yes. '') small_state ''q''))
        = uncertain_queries small_state @ [(''q'', strip '' Yes. '')]"
    using uncertain_recorded_iff_short [OF small_retrieve c a] s by blast
  moreover have "fst (generate_response insertion_argsort up_provider (fixed_env ?long) small_state ''q'') = small_state"
    using uncertain_recorded_iff_short [OF small_retrieve c a] l by blast
  ultimately show ?thesis
    using small_retrieve s l by (simp add: strip_short small_state_def)
qed

end

